theory Spec2Isabelle
  imports Complex_Main "HOL-Library.Word"
begin

unbundle bit_operations_syntax

section \<open>double\_array\_ops.cpp: scaleDoubleArray\<close>

text \<open>
  FreeFEM's \<open>KN<double>\<close> objects live on the heap and are passed by pointer. The heap
  is the list of arrays in allocation order and a pointer is an index into it, so that
  \<open>new KN<double>(n)\<close> appends an array and returns an index no earlier pointer has.
  The type \<open>'d\<close> stands for \<open>double\<close> and \<open>mul\<close> for its multiplication; the cells of a
  new array are not initialised, \<open>junk\<close> gives what they hold.
\<close>

type_synonym 'd heap = "'d list list"

definition INT_MAX :: int where
  "INT_MAX = 2147483647"

definition new_KN :: "(nat \<Rightarrow> 'd) \<Rightarrow> 'd heap \<Rightarrow> nat \<Rightarrow> nat \<times> 'd heap" where
  "new_KN junk h n = (length h, h @ [map junk [0..<n]])"

text \<open>
  The loop \<open>for (int i = 0; i < array->N(); i++) (*result)[i] = (*array)[i] * scale\<close>.
  The counter is a C \<open>int\<close>: incrementing it at \<open>INT_MAX\<close>, and an index outside
  either array, are undefined behaviour, the value \<open>None\<close>.
\<close>

function scale_loop ::
  "('d \<Rightarrow> 'd \<Rightarrow> 'd) \<Rightarrow> 'd heap \<Rightarrow> nat \<Rightarrow> nat \<Rightarrow> 'd \<Rightarrow> int \<Rightarrow> 'd heap option" where
  "scale_loop mul h array result scale i =
     (if i < int (length (h ! array)) then
        (if i < 0 \<or> length (h ! result) \<le> nat i \<or> length h \<le> result then None
         else if i = INT_MAX then None
         else scale_loop mul
                (h[result := (h ! result)[nat i := mul (h ! array ! nat i) scale]])
                array result scale (i + 1))
      else Some h)"
  by pat_completeness auto
termination
proof (relation "measure (\<lambda>(mul, h, array, result, scale, i). nat (int (length (h ! array)) - i))")
  show "wf (measure (\<lambda>(mul, h, array, result, scale, i). nat (int (length (h ! array)) - i)))"
    by simp
next
  fix mul :: "'d \<Rightarrow> 'd \<Rightarrow> 'd" and h :: "'d heap" and array result :: nat
    and scale :: 'd and i :: int
  assume lt: "i < int (length (h ! array))"
    and ok: "\<not> (i < 0 \<or> length (h ! result) \<le> nat i \<or> length h \<le> result)"
  have "length (h[result := (h ! result)[nat i := mul (h ! array ! nat i) scale]] ! array)
          = length (h ! array)"
    using ok by (cases "array = result") simp_all
  then show "((mul, h[result := (h ! result)[nat i := mul (h ! array ! nat i) scale]],
               array, result, scale, i + 1),
              (mul, h, array, result, scale, i))
             \<in> measure (\<lambda>(mul, h, array, result, scale, i). nat (int (length (h ! array)) - i))"
    using lt by simp
qed

text \<open>
  \<open>ScaleDoubleArrayCode::operator()\<close>: the result array is allocated with the length of
  the argument, filled by the loop and returned. A pointer that is no array of the heap
  is undefined behaviour.
\<close>

definition ScaleDoubleArray ::
  "('d \<Rightarrow> 'd \<Rightarrow> 'd) \<Rightarrow> (nat \<Rightarrow> 'd) \<Rightarrow> 'd heap \<Rightarrow> nat \<Rightarrow> 'd \<Rightarrow> (nat \<times> 'd heap) option" where
  "ScaleDoubleArray mul junk h array scale =
     (if length h \<le> array then None
      else
        let (result, h1) = new_KN junk h (length (h ! array))
        in case scale_loop mul h1 array result scale 0 of
             None \<Rightarrow> None
           | Some h2 \<Rightarrow> Some (result, h2))"

section \<open>mmap-semaphore.cpp: System V segments behind a registry of names\<close>

text \<open>
  Both copies of \<open>mmap-semaphore.cpp\<close> keep a process-wide map from names to
  \<open>SharedMemInfo\<close> (\<open>sharedMemories\<close> in \<open>pyfreefem_ml/plugins/src\<close>, \<open>segments\<close> in
  \<open>plugins/src\<close>) and call \<open>shmget\<close>, \<open>shmat\<close>, \<open>shmdt\<close> and \<open>shmctl\<close>.
  \<open>size_t\<close> is a 64-bit word, \<open>int\<close> a 32-bit word read as two's complement, a segment
  identifier an integer. A pointer is \<open>nullptr\<close>, the failure value \<open>(void* )-1\<close> of
  \<open>shmat\<close>, or the base address of an attachment.
\<close>

type_synonym size_t = "64 word"
type_synonym byte = "8 word"
type_synonym c_int = "32 word"

datatype pointer = Null | MapFailed | Ptr nat

record SharedMemInfo =
  id_seg :: int
  size_seg :: size_t
  addr :: pointer
  isAttached :: bool

definition new_SharedMemInfo :: "int \<Rightarrow> size_t \<Rightarrow> SharedMemInfo" where
  "new_SharedMemInfo i sz = \<lparr>id_seg = i, size_seg = sz, addr = Null, isAttached = False\<rparr>"

subsection \<open>The kernel's side\<close>

text \<open>
  What the kernel holds for this process: the segments by identifier (their bytes, the
  number of attachments, and whether \<open>IPC_RMID\<close> has marked them) and the attachments of
  the address space, each base address with the segment mapped there.
\<close>

record segment =
  bytes :: "byte list"
  nattch :: nat
  marked :: bool

record sysv =
  shm_segs :: "int \<rightharpoonup> segment"
  attaches :: "nat \<rightharpoonup> int"

text \<open>
  The kernel's answers are parameters of every operation: the process identifier, the
  key \<open>ftok\<close> gives a path (or \<open>-1\<close>), the identifier \<open>shmget\<close> gives a key and a size
  (negative: the call fails), the address \<open>shmat\<close> picks for a segment (\<open>None\<close>: the
  call fails), and whether \<open>shmdt\<close> and \<open>shmctl(IPC_RMID)\<close> go through.
\<close>

record kernel =
  getpid_ret :: c_int
  ftok_ret :: "string \<Rightarrow> int"
  shmget_ret :: "int \<Rightarrow> size_t \<Rightarrow> int"
  shmat_ret :: "int \<Rightarrow> nat option"
  shmdt_ok :: "nat \<Rightarrow> bool"
  shmctl_ok :: "int \<Rightarrow> bool"

text \<open>
  \<open>shmget(key, size, IPC_CREAT | 0666)\<close>: a new segment is zero-filled; an existing one
  smaller than the request is refused (\<open>EINVAL\<close>).
\<close>

definition shmget :: "kernel \<Rightarrow> sysv \<Rightarrow> int \<Rightarrow> size_t \<Rightarrow> int \<times> sysv" where
  "shmget k s key sz =
     (let r = shmget_ret k key sz in
      if r < 0 then (- 1, s)
      else case shm_segs s r of
             None \<Rightarrow>
               (r, s\<lparr>shm_segs := (shm_segs s)
                      (r \<mapsto> \<lparr>bytes = replicate (unat sz) 0, nattch = 0, marked = False\<rparr>)\<rparr>)
           | Some g \<Rightarrow> if unat sz \<le> length (bytes g) then (r, s) else (- 1, s))"

definition shmat :: "kernel \<Rightarrow> sysv \<Rightarrow> int \<Rightarrow> pointer \<times> sysv" where
  "shmat k s i =
     (case shmat_ret k i of
        None \<Rightarrow> (MapFailed, s)
      | Some a \<Rightarrow>
          (case shm_segs s i of
             None \<Rightarrow> (MapFailed, s)
           | Some g \<Rightarrow>
               (Ptr a, s\<lparr>shm_segs := (shm_segs s)(i \<mapsto> g\<lparr>nattch := nattch g + 1\<rparr>),
                         attaches := (attaches s)(a \<mapsto> i)\<rparr>)))"

text \<open>
  \<open>shmdt\<close> and \<open>shmctl(id, IPC_RMID, NULL)\<close>; the boolean is "returned 0". A marked
  segment goes with its last attachment.
\<close>

definition release :: "sysv \<Rightarrow> int \<Rightarrow> sysv" where
  "release s i =
     (case shm_segs s i of
        None \<Rightarrow> s
      | Some g \<Rightarrow>
          if marked g \<and> nattch g \<le> 1 then s\<lparr>shm_segs := (shm_segs s)(i := None)\<rparr>
          else s\<lparr>shm_segs := (shm_segs s)(i \<mapsto> g\<lparr>nattch := nattch g - 1\<rparr>)\<rparr>)"

definition shmdt :: "kernel \<Rightarrow> sysv \<Rightarrow> pointer \<Rightarrow> bool \<times> sysv" where
  "shmdt k s p =
     (case p of
        Ptr a \<Rightarrow>
          (case attaches s a of
             None \<Rightarrow> (False, s)
           | Some i \<Rightarrow>
               if shmdt_ok k a
               then (True, release (s\<lparr>attaches := (attaches s)(a := None)\<rparr>) i)
               else (False, s))
      | _ \<Rightarrow> (False, s))"

definition shmctl_rmid :: "kernel \<Rightarrow> sysv \<Rightarrow> int \<Rightarrow> bool \<times> sysv" where
  "shmctl_rmid k s i =
     (case shm_segs s i of
        None \<Rightarrow> (False, s)
      | Some g \<Rightarrow>
          if shmctl_ok k i
          then (True,
                if nattch g = 0 then s\<lparr>shm_segs := (shm_segs s)(i := None)\<rparr>
                else s\<lparr>shm_segs := (shm_segs s)(i \<mapsto> g\<lparr>marked := True\<rparr>)\<rparr>)
          else (False, s))"

text \<open>
  \<open>memcpy\<close> between a caller's buffer and \<open>(char* )p + d\<close>. The copy is defined when \<open>p\<close>
  is the base of a live attachment, the \<open>n\<close> bytes from displacement \<open>d\<close> lie inside the
  segment and the buffer has \<open>n\<close> bytes; anything else is undefined behaviour, \<open>None\<close>.
\<close>

definition memcpy_to :: "sysv \<Rightarrow> pointer \<Rightarrow> int \<Rightarrow> byte list \<Rightarrow> nat \<Rightarrow> sysv option" where
  "memcpy_to s p d src n =
     (case p of
        Ptr a \<Rightarrow>
          (case attaches s a of
             None \<Rightarrow> None
           | Some i \<Rightarrow>
               (case shm_segs s i of
                  None \<Rightarrow> None
                | Some g \<Rightarrow>
                    if 0 \<le> d \<and> nat d + n \<le> length (bytes g) \<and> n \<le> length src
                    then Some (s\<lparr>shm_segs := (shm_segs s)
                                 (i \<mapsto> g\<lparr>bytes := take (nat d) (bytes g) @ take n src @
                                                     drop (nat d + n) (bytes g)\<rparr>)\<rparr>)
                    else None))
      | _ \<Rightarrow> None)"

definition memcpy_from :: "sysv \<Rightarrow> pointer \<Rightarrow> int \<Rightarrow> byte list \<Rightarrow> nat \<Rightarrow> byte list option" where
  "memcpy_from s p d dst n =
     (case p of
        Ptr a \<Rightarrow>
          (case attaches s a of
             None \<Rightarrow> None
           | Some i \<Rightarrow>
               (case shm_segs s i of
                  None \<Rightarrow> None
                | Some g \<Rightarrow>
                    if 0 \<le> d \<and> nat d + n \<le> length (bytes g) \<and> n \<le> length dst
                    then Some (take n (drop (nat d) (bytes g)) @ drop n dst)
                    else None))
      | _ \<Rightarrow> None)"

subsection \<open>The manager's state\<close>

record manager =
  registry :: "string \<rightharpoonup> SharedMemInfo"
  sys :: sysv

subsection \<open>pyfreefem\_ml/plugins/src/mmap-semaphore.cpp\<close>

text \<open>
  \<open>generateKey\<close>: \<open>key = (key * 31 + c) & 0x7FFFFFFF\<close> over the characters (a \<open>char\<close> is
  signed), then \<open>(key ^ (getpid() << 16)) & 0x7FFFFFFF\<close>, in 32-bit arithmetic that
  wraps around.
\<close>

definition generateKey :: "kernel \<Rightarrow> string \<Rightarrow> c_int" where
  "generateKey k name =
     (let key = foldl (\<lambda>key c. (key * 31 + scast (of_nat (of_char c) :: byte)) AND 0x7FFFFFFF)
                  0 name
      in (key XOR push_bit 16 (getpid_ret k)) AND 0x7FFFFFFF)"

definition create :: "kernel \<Rightarrow> manager \<Rightarrow> string \<Rightarrow> size_t \<Rightarrow> int \<times> manager" where
  "create k m name sz =
     (if registry m name \<noteq> None then (- 1, m)
      else
        let key = generateKey k name;
            (shmid, s') = shmget k (sys m) (sint key) sz
        in if shmid = - 1 then (- 1, m)
           else (shmid, \<lparr>registry = (registry m)(name \<mapsto> new_SharedMemInfo shmid sz),
                         sys = s'\<rparr>))"

definition destroy :: "kernel \<Rightarrow> manager \<Rightarrow> string \<Rightarrow> bool \<times> manager" where
  "destroy k m name =
     (case registry m name of
        None \<Rightarrow> (False, m)
      | Some info \<Rightarrow>
          let (detached, s1) =
                (if isAttached info \<and> addr info \<noteq> Null then shmdt k (sys m) (addr info)
                 else (True, sys m))
          in if \<not> detached then (False, m)
             else
               let (removed, s2) = shmctl_rmid k s1 (id_seg info)
               in if \<not> removed then (False, m\<lparr>sys := s2\<rparr>)
                  else (True, \<lparr>registry = (registry m)(name := None), sys = s2\<rparr>))"

text \<open>
  \<open>SharedMemoryManager::write\<close> is \<open>write_shm\<close> here. The automatic attachment of
  \<open>write\<close> and \<open>read\<close>: \<open>Inl\<close> is the state in which the
  function returns \<open>false\<close> (\<open>addr\<close> reset to \<open>nullptr\<close>), \<open>Inr\<close> the handle to go on with.
\<close>

definition auto_attach ::
  "kernel \<Rightarrow> manager \<Rightarrow> string \<Rightarrow> SharedMemInfo \<Rightarrow> manager + (SharedMemInfo \<times> manager)" where
  "auto_attach k m name info =
     (if \<not> isAttached info \<or> addr info = Null then
        let (p, s1) = shmat k (sys m) (id_seg info)
        in if p = MapFailed
           then Inl \<lparr>registry = (registry m)(name \<mapsto> info\<lparr>addr := Null\<rparr>), sys = s1\<rparr>
           else
             let info' = info\<lparr>addr := p, isAttached := True\<rparr>
             in Inr (info', \<lparr>registry = (registry m)(name \<mapsto> info'), sys = s1\<rparr>)
      else Inr (info, m))"

definition write_shm ::
  "kernel \<Rightarrow> manager \<Rightarrow> string \<Rightarrow> byte list \<Rightarrow> size_t \<Rightarrow> size_t \<Rightarrow> (bool \<times> manager) option" where
  "write_shm k m name data sz offset =
     (case registry m name of
        None \<Rightarrow> Some (False, m)
      | Some info \<Rightarrow>
          if offset + sz > size_seg info then Some (False, m)
          else
            (case auto_attach k m name info of
               Inl m1 \<Rightarrow> Some (False, m1)
             | Inr (info', m1) \<Rightarrow>
                 (case memcpy_to (sys m1) (addr info') (uint offset) data (unat sz) of
                    None \<Rightarrow> None
                  | Some s2 \<Rightarrow> Some (True, m1\<lparr>sys := s2\<rparr>))))"

definition read ::
  "kernel \<Rightarrow> manager \<Rightarrow> string \<Rightarrow> byte list \<Rightarrow> size_t \<Rightarrow> size_t \<Rightarrow>
   (bool \<times> byte list \<times> manager) option" where
  "read k m name data sz offset =
     (case registry m name of
        None \<Rightarrow> Some (False, data, m)
      | Some info \<Rightarrow>
          if offset + sz > size_seg info then Some (False, data, m)
          else
            (case auto_attach k m name info of
               Inl m1 \<Rightarrow> Some (False, data, m1)
             | Inr (info', m1) \<Rightarrow>
                 (case memcpy_from (sys m1) (addr info') (uint offset) data (unat sz) of
                    None \<Rightarrow> None
                  | Some data' \<Rightarrow> Some (True, data', m1))))"

text \<open>
  \<open>ArrayInfo\<close> holds two \<open>double\<close>s, here reals (no NaN, no infinity).
  \<open>static_cast<size_t>\<close> truncates towards zero and is undefined when the truncated value
  is no \<open>size_t\<close>.
\<close>

record ArrayInfo =
  size_info :: real
  offset_info :: real

definition to_size_t :: "real \<Rightarrow> size_t option" where
  "to_size_t x =
     (let t = (if 0 \<le> x then \<lfloor>x\<rfloor> else \<lceil>x\<rceil>)
      in if 0 \<le> t \<and> t < 2 ^ 64 then Some (word_of_int t) else None)"

definition shm_write_array ::
  "kernel \<Rightarrow> manager \<Rightarrow> string \<Rightarrow> byte list \<Rightarrow> ArrayInfo \<Rightarrow> (real \<times> manager) option" where
  "shm_write_array k m name data info =
     (case to_size_t (size_info info) of
        None \<Rightarrow> None
      | Some n \<Rightarrow>
          (case to_size_t (offset_info info) of
             None \<Rightarrow> None
           | Some off \<Rightarrow>
               (case write_shm k m name data (n * 8) off of
                  None \<Rightarrow> None
                | Some (result, m') \<Rightarrow> Some (if result then 1 else 0, m'))))"

definition shm_read_array ::
  "kernel \<Rightarrow> manager \<Rightarrow> string \<Rightarrow> byte list \<Rightarrow> ArrayInfo \<Rightarrow>
   (real \<times> byte list \<times> manager) option" where
  "shm_read_array k m name data info =
     (case to_size_t (size_info info) of
        None \<Rightarrow> None
      | Some n \<Rightarrow>
          (case to_size_t (offset_info info) of
             None \<Rightarrow> None
           | Some off \<Rightarrow>
               (case read k m name data (n * 8) off of
                  None \<Rightarrow> None
                | Some (result, data', m') \<Rightarrow> Some (if result then 1 else 0, data', m'))))"

subsection \<open>plugins/src/mmap-semaphore.cpp\<close>

text \<open>
  The other copy: \<open>Create\<close> takes its key from \<open>ftok\<close> and does not look the name up
  first; \<open>WriteArray\<close> and \<open>ReadArray\<close> take \<open>int\<close> counts and offsets, attach before the
  bounds check and leave \<open>(void* )-1\<close> in \<open>addr\<close> when \<open>shmat\<close> fails.
\<close>

definition Create :: "kernel \<Rightarrow> manager \<Rightarrow> string \<Rightarrow> size_t \<Rightarrow> int \<times> manager" where
  "Create k m name sz =
     (let key = ftok_ret k name in
      if key = - 1 then (- 1, m)
      else
        let (shmid, s') = shmget k (sys m) key sz
        in if shmid = - 1 then (- 1, m)
           else (shmid, \<lparr>registry = (registry m)(name \<mapsto> new_SharedMemInfo shmid sz),
                         sys = s'\<rparr>))"

definition Destroy :: "kernel \<Rightarrow> manager \<Rightarrow> string \<Rightarrow> bool \<times> manager" where
  "Destroy k m name =
     (case registry m name of
        None \<Rightarrow> (False, m)
      | Some info \<Rightarrow>
          let (detached, s1) =
                (if isAttached info then shmdt k (sys m) (addr info) else (True, sys m))
          in if \<not> detached then (False, m)
             else
               let (removed, s2) = shmctl_rmid k s1 (id_seg info)
               in if \<not> removed then (False, m\<lparr>sys := s2\<rparr>)
                  else (True, \<lparr>registry = (registry m)(name := None), sys = s2\<rparr>))"

definition Attach ::
  "kernel \<Rightarrow> manager \<Rightarrow> string \<Rightarrow> SharedMemInfo \<Rightarrow> manager + (SharedMemInfo \<times> manager)" where
  "Attach k m name info =
     (if \<not> isAttached info then
        let (p, s1) = shmat k (sys m) (id_seg info)
        in if p = MapFailed
           then Inl \<lparr>registry = (registry m)(name \<mapsto> info\<lparr>addr := p\<rparr>), sys = s1\<rparr>
           else
             let info' = info\<lparr>addr := p, isAttached := True\<rparr>
             in Inr (info', \<lparr>registry = (registry m)(name \<mapsto> info'), sys = s1\<rparr>)
      else Inr (info, m))"

definition WriteArray ::
  "kernel \<Rightarrow> manager \<Rightarrow> string \<Rightarrow> byte list \<Rightarrow> c_int \<Rightarrow> c_int \<Rightarrow> (bool \<times> manager) option" where
  "WriteArray k m name data sz offset =
     (case registry m name of
        None \<Rightarrow> Some (False, m)
      | Some info \<Rightarrow>
          (case Attach k m name info of
             Inl m1 \<Rightarrow> Some (False, m1)
           | Inr (info', m1) \<Rightarrow>
               if (scast offset :: size_t) + scast sz * 8 > size_seg info' then Some (False, m1)
               else
                 (case memcpy_to (sys m1) (addr info') (sint offset) data
                         (unat (scast sz * 8 :: size_t)) of
                    None \<Rightarrow> None
                  | Some s2 \<Rightarrow> Some (True, m1\<lparr>sys := s2\<rparr>))))"

definition ReadArray ::
  "kernel \<Rightarrow> manager \<Rightarrow> string \<Rightarrow> byte list \<Rightarrow> c_int \<Rightarrow> c_int \<Rightarrow>
   (bool \<times> byte list \<times> manager) option" where
  "ReadArray k m name data sz offset =
     (case registry m name of
        None \<Rightarrow> Some (False, data, m)
      | Some info \<Rightarrow>
          (case Attach k m name info of
             Inl m1 \<Rightarrow> Some (False, data, m1)
           | Inr (info', m1) \<Rightarrow>
               if (scast offset :: size_t) + scast sz * 8 > size_seg info'
               then Some (False, data, m1)
               else
                 (case memcpy_from (sys m1) (addr info') (sint offset) data
                         (unat (scast sz * 8 :: size_t)) of
                    None \<Rightarrow> None
                  | Some data' \<Rightarrow> Some (True, data', m1))))"

subsection \<open>A segment of sixteen bytes\<close>

text \<open>
  The states the theorems below are evaluated on: a kernel that grants every call
  (segment 7, attached at address 4096), one whose \<open>shmctl\<close> fails, and the manager after
  \<open>create("s", 16)\<close>, before and after its first attachment.
\<close>

definition kernel_ok :: kernel where
  "kernel_ok = \<lparr>getpid_ret = 1234, ftok_ret = (\<lambda>_. 42), shmget_ret = (\<lambda>_ _. 7),
                 shmat_ret = (\<lambda>_. Some 4096), shmdt_ok = (\<lambda>_. True), shmctl_ok = (\<lambda>_. True)\<rparr>"

definition kernel_rmid_fails :: kernel where
  "kernel_rmid_fails = kernel_ok\<lparr>shmctl_ok := (\<lambda>_. False)\<rparr>"

definition manager_empty :: manager where
  "manager_empty = \<lparr>registry = Map.empty, sys = \<lparr>shm_segs = Map.empty, attaches = Map.empty\<rparr>\<rparr>"

definition segment16 :: segment where
  "segment16 =
     \<lparr>bytes = [0, 0, 0, 0, 0, 0, 0, 0, 0, 0, 0, 0, 0, 0, 0, 0], nattch = 0, marked = False\<rparr>"

definition manager_s16 :: manager where
  "manager_s16 =
     \<lparr>registry = [''s'' \<mapsto> new_SharedMemInfo 7 16],
      sys = \<lparr>shm_segs = [7 \<mapsto> segment16], attaches = Map.empty\<rparr>\<rparr>"

definition manager_s16_holding :: "byte list \<Rightarrow> manager" where
  "manager_s16_holding bs =
     \<lparr>registry = [''s'' \<mapsto> \<lparr>id_seg = 7, size_seg = 16, addr = Ptr 4096, isAttached = True\<rparr>],
      sys = \<lparr>shm_segs = [7 \<mapsto> \<lparr>bytes = bs, nattch = 1, marked = False\<rparr>],
             attaches = [4096 \<mapsto> 7]\<rparr>\<rparr>"

definition bytes_1_8 :: "byte list" where
  "bytes_1_8 = [1, 2, 3, 4, 5, 6, 7, 8]"

section \<open>shm\_implementation.cpp: publish and consume over POSIX shared memory\<close>

text \<open>
  \<open>write_array_to_shared_memory\<close> (publish) and \<open>read_array_from_shared_memory\<close>
  (consume) work on a POSIX shared memory object named \<open>"/" + name\<close> that starts with
  a \<open>SharedMemoryData\<close> header and goes on with the doubles, and on a named semaphore
  \<open>"/sem_" + name\<close>. The type \<open>'d\<close> stands for \<open>double\<close>, with \<open>0\<close> for the all-zero
  bit pattern.
\<close>

record SharedMemoryData =
  size_data :: size_t
  elements :: size_t
  data_type :: string
  semaphore_name :: string

definition sizeof_SharedMemoryData :: nat where
  "sizeof_SharedMemoryData = 8 + 8 + 32 + 64"

definition sizeof_double :: nat where
  "sizeof_double = 8"

definition zero_header :: SharedMemoryData where
  "zero_header = \<lparr>size_data = 0, elements = 0, data_type = [], semaphore_name = []\<rparr>"

subsection \<open>The operating system's side\<close>

text \<open>
  A shared memory object has its size in bytes, the header at its start and the doubles
  after it, as many as fit. A pointer returned by \<open>mmap\<close> knows the object it maps and
  the length of the mapping.
\<close>

record 'd shm_object =
  obj_size :: nat
  hdr :: SharedMemoryData
  cells :: "'d list"

datatype map_addr = NULL_addr | Mapping string nat

text \<open>
  The order of the effects other processes can see is kept in a trace: the stores into
  the header fields and into the doubles, and the operations on semaphores.
\<close>

datatype field = F_size | F_elements | F_data_type | F_semaphore_name | F_cell nat

datatype event = Store field | Post string | Wait string

record shm_slot =
  name_slot :: string
  addr_slot :: map_addr
  size_slot :: size_t
  fd_slot :: int
  in_use :: bool

record 'd posix =
  shm_objects :: "shm_slot list"
  shm_fs :: "string \<rightharpoonup> 'd shm_object"
  sems :: "string \<rightharpoonup> nat"
  trace :: "event list"

text \<open>
  The answers of the operating system are parameters: the descriptor \<open>shm_open\<close> returns
  for a name (negative: failure), and whether \<open>ftruncate\<close>, \<open>mmap\<close> and \<open>sem_open\<close> go
  through.
\<close>

record os_calls =
  shm_open_ret :: "string \<Rightarrow> int"
  ftruncate_ok :: "int \<Rightarrow> bool"
  mmap_ok :: "int \<Rightarrow> bool"
  sem_open_ok :: "string \<Rightarrow> bool"

text \<open>
  \<open>shm_open(name, O_CREAT | O_RDWR, 0666)\<close> creates an empty object when there is none;
  \<open>ftruncate\<close> sets the size, cutting the doubles that no longer fit and zero-filling
  what it adds.
\<close>

definition shm_open_creat :: "'d posix \<Rightarrow> string \<Rightarrow> 'd posix" where
  "shm_open_creat st nm =
     (case shm_fs st nm of
        None \<Rightarrow> st\<lparr>shm_fs := (shm_fs st)(nm \<mapsto> \<lparr>obj_size = 0, hdr = zero_header, cells = []\<rparr>)\<rparr>
      | Some ob \<Rightarrow> st)"

definition resize_object :: "('d::zero) shm_object \<Rightarrow> nat \<Rightarrow> 'd shm_object" where
  "resize_object ob n =
     (let k = (n - sizeof_SharedMemoryData) div sizeof_double
      in \<lparr>obj_size = n,
          hdr = (if n < sizeof_SharedMemoryData then zero_header else hdr ob),
          cells = take k (cells ob) @ replicate (k - length (cells ob)) 0\<rparr>)"

definition ftruncate :: "('d::zero) posix \<Rightarrow> string \<Rightarrow> size_t \<Rightarrow> 'd posix" where
  "ftruncate st nm sz =
     (case shm_fs st nm of
        None \<Rightarrow> st
      | Some ob \<Rightarrow> st\<lparr>shm_fs := (shm_fs st)(nm \<mapsto> resize_object ob (unat sz))\<rparr>)"

text \<open>
  Loads and stores through a mapping. An access outside the mapping or outside the
  object is undefined behaviour, \<open>None\<close>. A string goes into a \<open>char\<close> array with
  \<open>strcpy\<close>, which needs room for the string and its terminator.
\<close>

definition load_header :: "'d posix \<Rightarrow> map_addr \<Rightarrow> SharedMemoryData option" where
  "load_header st p =
     (case p of
        NULL_addr \<Rightarrow> None
      | Mapping nm len \<Rightarrow>
          (case shm_fs st nm of
             None \<Rightarrow> None
           | Some ob \<Rightarrow>
               if sizeof_SharedMemoryData \<le> len \<and> sizeof_SharedMemoryData \<le> obj_size ob
               then Some (hdr ob) else None))"

definition store_header ::
  "'d posix \<Rightarrow> map_addr \<Rightarrow> field \<Rightarrow> (SharedMemoryData \<Rightarrow> SharedMemoryData) \<Rightarrow> 'd posix option" where
  "store_header st p f upd =
     (case p of
        NULL_addr \<Rightarrow> None
      | Mapping nm len \<Rightarrow>
          (case shm_fs st nm of
             None \<Rightarrow> None
           | Some ob \<Rightarrow>
               if sizeof_SharedMemoryData \<le> len \<and> sizeof_SharedMemoryData \<le> obj_size ob
               then Some (st\<lparr>shm_fs := (shm_fs st)(nm \<mapsto> ob\<lparr>hdr := upd (hdr ob)\<rparr>),
                              trace := trace st @ [Store f]\<rparr>)
               else None))"

definition strcpy_header ::
  "'d posix \<Rightarrow> map_addr \<Rightarrow> field \<Rightarrow> nat \<Rightarrow> (string \<Rightarrow> SharedMemoryData \<Rightarrow> SharedMemoryData) \<Rightarrow>
   string \<Rightarrow> 'd posix option" where
  "strcpy_header st p f room upd str =
     (if length str < room then store_header st p f (upd str) else None)"

definition load_cell :: "'d posix \<Rightarrow> map_addr \<Rightarrow> nat \<Rightarrow> 'd option" where
  "load_cell st p i =
     (case p of
        NULL_addr \<Rightarrow> None
      | Mapping nm len \<Rightarrow>
          (case shm_fs st nm of
             None \<Rightarrow> None
           | Some ob \<Rightarrow>
               if sizeof_SharedMemoryData + sizeof_double * (i + 1) \<le> len \<and> i < length (cells ob)
               then Some (cells ob ! i) else None))"

definition store_cell :: "'d posix \<Rightarrow> map_addr \<Rightarrow> nat \<Rightarrow> 'd \<Rightarrow> 'd posix option" where
  "store_cell st p i v =
     (case p of
        NULL_addr \<Rightarrow> None
      | Mapping nm len \<Rightarrow>
          (case shm_fs st nm of
             None \<Rightarrow> None
           | Some ob \<Rightarrow>
               if sizeof_SharedMemoryData + sizeof_double * (i + 1) \<le> len \<and> i < length (cells ob)
               then Some (st\<lparr>shm_fs := (shm_fs st)(nm \<mapsto> ob\<lparr>cells := (cells ob)[i := v]\<rparr>),
                              trace := trace st @ [Store (F_cell i)]\<rparr>)
               else None))"

text \<open>
  Named semaphores. \<open>sem_open(name, O_CREAT, 0666, 0)\<close> creates the semaphore at 0 when
  there is none and leaves an existing one as it is; \<open>sem_open(name, 0)\<close> needs it to
  exist; no semaphore has the empty name. \<open>sem_post\<close> adds one to the value, a natural
  number (the overflow error at \<open>SEM_VALUE_MAX\<close> is left out). \<open>sem_timedwait\<close> takes
  one unit when the value is positive; otherwise, no other process posting while it
  waits, it times out after its ten seconds and returns \<open>-1\<close>.
\<close>

definition sem_open_creat :: "os_calls \<Rightarrow> 'd posix \<Rightarrow> string \<Rightarrow> bool \<times> 'd posix" where
  "sem_open_creat os st nm =
     (if nm = [] \<or> \<not> sem_open_ok os nm then (False, st)
      else case sems st nm of
             None \<Rightarrow> (True, st\<lparr>sems := (sems st)(nm \<mapsto> 0)\<rparr>)
           | Some c \<Rightarrow> (True, st))"

definition sem_open_existing :: "os_calls \<Rightarrow> 'd posix \<Rightarrow> string \<Rightarrow> bool" where
  "sem_open_existing os st nm = (nm \<noteq> [] \<and> sem_open_ok os nm \<and> sems st nm \<noteq> None)"

definition sem_post :: "'d posix \<Rightarrow> string \<Rightarrow> 'd posix" where
  "sem_post st nm =
     (case sems st nm of
        None \<Rightarrow> st
      | Some c \<Rightarrow>
          st\<lparr>sems := (sems st)(nm \<mapsto> c + 1), trace := trace st @ [Post nm]\<rparr>)"

definition sem_timedwait :: "'d posix \<Rightarrow> string \<Rightarrow> bool \<times> 'd posix" where
  "sem_timedwait st nm =
     (case sems st nm of
        None \<Rightarrow> (False, st)
      | Some c \<Rightarrow>
          if 0 < c
          then (True, st\<lparr>sems := (sems st)(nm \<mapsto> c - 1), trace := trace st @ [Wait nm]\<rparr>)
          else (False, st))"

subsection \<open>SharedMemoryManager: the table of slots\<close>

definition MAX_SHM_OBJECTS :: nat where
  "MAX_SHM_OBJECTS = 100"

text \<open>
  The two search loops run over the \<open>MAX_SHM_OBJECTS\<close> entries of the table in order and
  return the first index that fits, or \<open>-1\<close>.
\<close>

fun find_free_slot_from :: "shm_slot list \<Rightarrow> int \<Rightarrow> int" where
  "find_free_slot_from [] i = - 1"
| "find_free_slot_from (s # ss) i =
     (if \<not> in_use s then i else find_free_slot_from ss (i + 1))"

definition find_free_slot :: "'d posix \<Rightarrow> int" where
  "find_free_slot st = find_free_slot_from (take MAX_SHM_OBJECTS (shm_objects st)) 0"

fun find_slot_by_name_from :: "shm_slot list \<Rightarrow> string \<Rightarrow> int \<Rightarrow> int" where
  "find_slot_by_name_from [] nm i = - 1"
| "find_slot_by_name_from (s # ss) nm i =
     (if in_use s \<and> name_slot s = nm then i else find_slot_by_name_from ss nm (i + 1))"

definition find_slot_by_name :: "'d posix \<Rightarrow> string \<Rightarrow> int" where
  "find_slot_by_name st nm =
     find_slot_by_name_from (take MAX_SHM_OBJECTS (shm_objects st)) nm 0"

text \<open>
  \<open>SharedMemoryManager::close(int slot)\<close> unmaps and marks the slot free. Inside the
  class the call \<open>close(fd)\<close> of \<open>create_or_open\<close> is this function, with the descriptor
  as the slot.
\<close>

definition close :: "'d posix \<Rightarrow> int \<Rightarrow> 'd posix" where
  "close st slot =
     (if slot < 0 \<or> int MAX_SHM_OBJECTS \<le> slot \<or> \<not> in_use (shm_objects st ! nat slot) then st
      else st\<lparr>shm_objects :=
                (shm_objects st)[nat slot := (shm_objects st ! nat slot)\<lparr>in_use := False\<rparr>]\<rparr>)"

definition get_address :: "'d posix \<Rightarrow> int \<Rightarrow> map_addr" where
  "get_address st slot =
     (if slot < 0 \<or> int MAX_SHM_OBJECTS \<le> slot \<or> \<not> in_use (shm_objects st ! nat slot)
      then NULL_addr
      else addr_slot (shm_objects st ! nat slot))"

definition create_or_open ::
  "os_calls \<Rightarrow> ('d::zero) posix \<Rightarrow> string \<Rightarrow> size_t \<Rightarrow> int \<times> 'd posix" where
  "create_or_open os st nm sz =
     (let slot = find_slot_by_name st nm in
      if 0 \<le> slot then (slot, st)
      else
        let slot = find_free_slot st in
        if slot < 0 then (- 1, st)
        else
          let fd = shm_open_ret os nm in
          if fd < 0 then (- 1, st)
          else
            let st1 = shm_open_creat st nm in
            if \<not> ftruncate_ok os fd then (- 1, close st1 fd)
            else
              let st2 = ftruncate st1 nm sz in
              if \<not> mmap_ok os fd then (- 1, close st2 fd)
              else
                (slot,
                 st2\<lparr>shm_objects := (shm_objects st2)
                        [nat slot := \<lparr>name_slot = nm, addr_slot = Mapping nm (unat sz),
                                       size_slot = sz, fd_slot = fd, in_use = True\<rparr>]\<rparr>))"

subsection \<open>Publish\<close>

text \<open>
  The loop \<open>for (size_t i = 0; i < elements; i++) data_ptr[i] = (*array)[i]\<close>; reading
  the array past its end is undefined behaviour.
\<close>

function copy_in :: "'d posix \<Rightarrow> map_addr \<Rightarrow> 'd list \<Rightarrow> nat \<Rightarrow> nat \<Rightarrow> 'd posix option" where
  "copy_in st p array n i =
     (if i < n then
        (if length array \<le> i then None
         else case store_cell st p i (array ! i) of
                None \<Rightarrow> None
              | Some st' \<Rightarrow> copy_in st' p array n (i + 1))
      else Some st)"
  by pat_completeness auto
termination
  by (relation "measure (\<lambda>(st, p, array, n, i). n - i)") auto

definition write_array_to_shared_memory ::
  "os_calls \<Rightarrow> ('d::zero) posix \<Rightarrow> string \<Rightarrow> 'd list option \<Rightarrow> (bool \<times> 'd posix) option" where
  "write_array_to_shared_memory os st name array =
     (case array of
        None \<Rightarrow> Some (False, st)
      | Some a \<Rightarrow>
          let elems = (of_nat (length a) :: size_t);
              data_size = elems * of_nat sizeof_double;
              total_size = of_nat sizeof_SharedMemoryData + data_size;
              shm_name = ''/'' @ name;
              (slot, st1) = create_or_open os st shm_name total_size
          in if slot < 0 then Some (False, st1)
             else
               let p = get_address st1 slot;
                   sem_name = ''/sem_'' @ name
               in case store_header st1 p F_size (size_data_update (\<lambda>_. data_size)) of
                    None \<Rightarrow> None
                  | Some st2 \<Rightarrow>
               (case store_header st2 p F_elements (elements_update (\<lambda>_. elems)) of
                    None \<Rightarrow> None
                  | Some st3 \<Rightarrow>
               (case strcpy_header st3 p F_data_type 32 (\<lambda>s. data_type_update (\<lambda>_. s))
                       ''double_array'' of
                    None \<Rightarrow> None
                  | Some st4 \<Rightarrow>
               (case strcpy_header st4 p F_semaphore_name 64
                       (\<lambda>s. semaphore_name_update (\<lambda>_. s)) sem_name of
                    None \<Rightarrow> None
                  | Some st5 \<Rightarrow>
                      let (opened, st6) = sem_open_creat os st5 sem_name
                      in if \<not> opened then Some (False, st6)
                         else case copy_in st6 p a (unat elems) 0 of
                                None \<Rightarrow> None
                              | Some st7 \<Rightarrow> Some (True, sem_post st7 sem_name)))))"

subsection \<open>Consume\<close>

text \<open>
  \<open>array->resize(elements)\<close> keeps what fits of the old contents; the loop
  \<open>for (size_t i = 0; i < elements; i++) (*array)[i] = data_ptr[i]\<close> then overwrites
  every element, so the value the new elements get here never reaches the result.
\<close>

definition resize_KN :: "('d::zero) list \<Rightarrow> nat \<Rightarrow> 'd list" where
  "resize_KN a n = take n a @ replicate (n - length a) 0"

function copy_out :: "'d posix \<Rightarrow> map_addr \<Rightarrow> 'd list \<Rightarrow> nat \<Rightarrow> nat \<Rightarrow> 'd list option" where
  "copy_out st p array n i =
     (if i < n then
        (if length array \<le> i then None
         else case load_cell st p i of
                None \<Rightarrow> None
              | Some v \<Rightarrow> copy_out st p (array[i := v]) n (i + 1))
      else Some array)"
  by pat_completeness auto
termination
  by (relation "measure (\<lambda>(st, p, array, n, i). n - i)") auto

definition read_array_from_shared_memory ::
  "os_calls \<Rightarrow> ('d::zero) posix \<Rightarrow> string \<Rightarrow> 'd list option \<Rightarrow>
   (bool \<times> 'd list option \<times> 'd posix) option" where
  "read_array_from_shared_memory os st name array =
     (case array of
        None \<Rightarrow> Some (False, None, st)
      | Some a \<Rightarrow>
          let shm_name = ''/'' @ name;
              (slot, st1) = create_or_open os st shm_name (of_nat sizeof_SharedMemoryData)
          in if slot < 0 then Some (False, array, st1)
             else
               let p = get_address st1 slot
               in case load_header st1 p of
                    None \<Rightarrow> None
                  | Some shm_data \<Rightarrow>
                      if \<not> sem_open_existing os st1 (semaphore_name shm_data)
                      then Some (False, array, st1)
                      else
                        let (got, st2) = sem_timedwait st1 (semaphore_name shm_data)
                        in if \<not> got then Some (False, array, st2)
                           else if data_type shm_data \<noteq> ''double_array''
                           then Some (False, array, sem_post st2 (semaphore_name shm_data))
                           else
                             let n = unat (elements shm_data)
                             in case copy_out st2 p (resize_KN a n) n 0 of
                                  None \<Rightarrow> None
                                | Some a' \<Rightarrow>
                                    Some (True, Some a',
                                          sem_post st2 (semaphore_name shm_data)))"

subsection \<open>A process that starts with an empty table\<close>

definition empty_slot :: shm_slot where
  "empty_slot = \<lparr>name_slot = [], addr_slot = NULL_addr, size_slot = 0, fd_slot = 0,
                  in_use = False\<rparr>"

definition posix_start :: "'d posix" where
  "posix_start = \<lparr>shm_objects = replicate MAX_SHM_OBJECTS empty_slot, shm_fs = Map.empty,
                   sems = Map.empty, trace = []\<rparr>"

definition os_ok :: os_calls where
  "os_ok = \<lparr>shm_open_ret = (\<lambda>_. 3), ftruncate_ok = (\<lambda>_. True), mmap_ok = (\<lambda>_. True),
             sem_open_ok = (\<lambda>_. True)\<rparr>"

text \<open>
  The state of a process that has registered the segment of a channel in its first
  slot: the segment holds the envelope and the array \<open>a\<close>, the semaphore is at \<open>c\<close>, the
  trace is \<open>t\<close>. The events of one publish are the four stores into the header, the
  stores of the doubles in order, and the post.
\<close>

definition slot_of :: "string \<Rightarrow> size_t \<Rightarrow> shm_slot" where
  "slot_of nm sz = \<lparr>name_slot = nm, addr_slot = Mapping nm (unat sz), size_slot = sz,
                    fd_slot = 3, in_use = True\<rparr>"

definition envelope :: "string \<Rightarrow> nat \<Rightarrow> SharedMemoryData" where
  "envelope name n = \<lparr>size_data = of_nat (8 * n), elements = of_nat n,
                      data_type = ''double_array'', semaphore_name = ''/sem_'' @ name\<rparr>"

definition channel :: "string \<Rightarrow> 'd list \<Rightarrow> nat \<Rightarrow> event list \<Rightarrow> 'd posix" where
  "channel name a c t =
     \<lparr>shm_objects = slot_of (''/'' @ name) (of_nat (112 + 8 * length a)) # replicate 99 empty_slot,
      shm_fs = [''/'' @ name \<mapsto> \<lparr>obj_size = 112 + 8 * length a, hdr = envelope name (length a),
                                  cells = a\<rparr>],
      sems = [''/sem_'' @ name \<mapsto> c],
      trace = t\<rparr>"

definition header_events :: "event list" where
  "header_events = [Store F_size, Store F_elements, Store F_data_type, Store F_semaphore_name]"

definition publish_events :: "string \<Rightarrow> nat \<Rightarrow> event list" where
  "publish_events name n =
     header_events @ map (\<lambda>i. Store (F_cell i)) [0..<n] @ [Post (''/sem_'' @ name)]"

text \<open>Another process: its own table, empty, and the same objects and semaphores.\<close>

definition other_process :: "'d posix \<Rightarrow> 'd posix" where
  "other_process st = st\<lparr>shm_objects := replicate MAX_SHM_OBJECTS empty_slot\<rparr>"

section \<open>Theorems: scaleDoubleArray\<close>

lemma scale_loop_fills:
  "array < length h \<Longrightarrow> result < length h \<Longrightarrow> array \<noteq> result \<Longrightarrow>
   length (h ! result) = length (h ! array) \<Longrightarrow> int (length (h ! array)) \<le> INT_MAX \<Longrightarrow>
   0 \<le> i \<Longrightarrow> i \<le> int (length (h ! array)) \<Longrightarrow>
   scale_loop mul h array result scale i =
     Some (h[result := take (nat i) (h ! result) @
                       map (\<lambda>x. mul x scale) (drop (nat i) (h ! array))])"
proof (induction mul h array result scale i rule: scale_loop.induct)
  case (1 mul h array result scale i)
  let ?n = "length (h ! array)"
  show ?case
  proof (cases "i < int ?n")
    case False
    with "1.prems" have "nat i = ?n" by simp
    with False "1.prems" show ?thesis
      by (simp add: list_update_same_conv)
  next
    case True
    let ?h' = "h[result := (h ! result)[nat i := mul (h ! array ! nat i) scale]]"
    have guards: "\<not> (i < 0 \<or> length (h ! result) \<le> nat i \<or> length h \<le> result)"
      using True "1.prems" by auto
    have nomax: "i \<noteq> INT_MAX" using True "1.prems" by simp
    have arr: "?h' ! array = h ! array" using "1.prems" by simp
    have res: "?h' ! result = (h ! result)[nat i := mul (h ! array ! nat i) scale]"
      using "1.prems" by simp
    have step: "scale_loop mul ?h' array result scale (i + 1) =
      Some (?h'[result := take (nat (i + 1)) (?h' ! result) @
                       map (\<lambda>x. mul x scale) (drop (nat (i + 1)) (?h' ! array))])"
      using "1.IH"[OF True guards nomax] "1.prems" True arr res by simp
    have ni: "nat (i + 1) = Suc (nat i)" using "1.prems" by simp
    have lt: "nat i < ?n" using True "1.prems" by simp
    have "take (Suc (nat i)) ((h ! result)[nat i := mul (h ! array ! nat i) scale]) @
            map (\<lambda>x. mul x scale) (drop (Suc (nat i)) (h ! array))
          = take (nat i) (h ! result) @ map (\<lambda>x. mul x scale) (drop (nat i) (h ! array))"
      using lt "1.prems"(4)
      by (simp add: take_Suc_conv_app_nth Cons_nth_drop_Suc[symmetric])
    then show ?thesis
      using step True guards nomax arr res ni by simp
  qed
qed


text \<open>
  Claim C10. For an array of at most \<open>INT_MAX\<close> elements (the loop counter is an
  \<open>int\<close>) and every scalar, \<open>scaleDoubleArray\<close> returns a pointer no array had before;
  the array behind it has at each index the argument's element times the scalar (so it
  has the argument's length), and every array that existed before the call, the
  argument among them, is as it was.
\<close>

theorem ScaleDoubleArray_scales:
  assumes "array < length h" and "int (length (h ! array)) \<le> INT_MAX"
  shows "ScaleDoubleArray mul junk h array scale =
           Some (length h, h @ [map (\<lambda>x. mul x scale) (h ! array)])"
proof -
  let ?n = "length (h ! array)"
  let ?h1 = "h @ [map junk [0..<?n]]"
  have a: "?h1 ! array = h ! array"
    using assms(1) by (simp add: nth_append)
  have r: "?h1 ! length h = map junk [0..<?n]"
    by simp
  have "scale_loop mul ?h1 array (length h) scale 0 =
          Some (?h1[length h := take (nat 0) (?h1 ! length h) @
                                map (\<lambda>x. mul x scale) (drop (nat 0) (?h1 ! array))])"
    using assms by (intro scale_loop_fills) (simp_all add: nth_append)
  then have "scale_loop mul ?h1 array (length h) scale 0 =
          Some (h @ [map (\<lambda>x. mul x scale) (h ! array)])"
    by (simp add: a)
  then show ?thesis
    using assms(1) by (simp add: ScaleDoubleArray_def new_KN_def)
qed

theorem ScaleDoubleArray_scales_witness:
  "(0::nat) < length [[1, 2, 3 :: int]] \<and> int (length ([[1, 2, 3 :: int]] ! 0)) \<le> INT_MAX \<and>
   ScaleDoubleArray (*) (\<lambda>_. 7) [[1, 2, 3 :: int]] 0 2 = Some (1, [[1, 2, 3], [2, 4, 6]])"
  using ScaleDoubleArray_scales [of 0 "[[1, 2, 3 :: int]]" "(*)" "\<lambda>_. 7" 2]
  by (simp add: INT_MAX_def)

section \<open>Theorems: the registry and the transfer engine\<close>

lemma replicate_16:
  "replicate 16 (0 :: byte) = [0, 0, 0, 0, 0, 0, 0, 0, 0, 0, 0, 0, 0, 0, 0, 0]"
  by (simp add: numeral_eq_Suc)

text \<open>The sixteen-byte state is what \<open>create\<close> leaves in an empty manager.\<close>

lemma manager_s16_created: "create kernel_ok manager_empty ''s'' 16 = (7, manager_s16)"
  by (simp add: create_def kernel_ok_def manager_empty_def manager_s16_def shmget_def
      segment16_def replicate_16 Let_def)

subsection \<open>Strict create\<close>

text \<open>
  Claim C9. \<open>create\<close>, the strict variant, on a name the registry already holds returns
  \<open>-1\<close> and leaves the manager, registry and kernel side, exactly as it was: the handle
  is neither replaced nor duplicated.
\<close>

theorem create_existing_name:
  "registry m name = Some info \<Longrightarrow> create k m name sz = (- 1, m)"
  by (simp add: create_def)

theorem create_existing_name_witness:
  "registry manager_s16 ''s'' = Some (new_SharedMemInfo 7 16) \<and>
   create kernel_ok manager_s16 ''s'' 32 = (- 1, manager_s16)"
  using create_existing_name [of manager_s16 "''s''" "new_SharedMemInfo 7 16" kernel_ok 32]
  by (simp add: manager_s16_def)

text \<open>
  \<open>Create\<close> of the other copy is the variant that does not fail: on the same state it
  returns the identifier and puts a new, unattached handle in place of the old one.
\<close>

lemma Create_replaces_handle:
  "Create kernel_ok manager_s16 ''s'' 8 =
     (7, manager_s16\<lparr>registry := [''s'' \<mapsto> new_SharedMemInfo 7 8]\<rparr>)"
  by (simp add: Create_def kernel_ok_def manager_s16_def shmget_def segment16_def Let_def)

subsection \<open>Destroy when the release fails\<close>


text \<open>Whatever makes \<open>destroy\<close> or \<open>Destroy\<close> return \<open>false\<close>, the registry stays as it is.\<close>

lemma destroy_failure_keeps_registry:
  "\<not> fst (destroy k m name) \<Longrightarrow> registry (snd (destroy k m name)) = registry m"
  "\<not> fst (Destroy k m name) \<Longrightarrow> registry (snd (Destroy k m name)) = registry m"
  by (auto simp: destroy_def Destroy_def Let_def split: option.splits prod.splits if_splits)




text \<open>
  An attached handle is another matter. \<open>destroy\<close> has detached the segment by the time
  \<open>shmctl\<close> fails, and the entry it leaves still says attached, at the address that is
  no longer mapped: the next \<open>write\<close> through it copies to unmapped memory, and a later
  \<open>destroy\<close> fails at \<open>shmdt\<close>. The statement above does not speak about this case.
\<close>

lemma destroy_after_detach_leaves_dangling_handle:
  "destroy kernel_rmid_fails (manager_s16_holding bs) ''s'' =
     (False,
      \<lparr>registry = [''s'' \<mapsto> \<lparr>id_seg = 7, size_seg = 16, addr = Ptr 4096, isAttached = True\<rparr>],
       sys = \<lparr>shm_segs = [7 \<mapsto> \<lparr>bytes = bs, nattch = 0, marked = False\<rparr>],
              attaches = Map.empty\<rparr>\<rparr>) \<and>
   write_shm kernel_ok
     \<lparr>registry = [''s'' \<mapsto> \<lparr>id_seg = 7, size_seg = 16, addr = Ptr 4096, isAttached = True\<rparr>],
      sys = \<lparr>shm_segs = [7 \<mapsto> \<lparr>bytes = bs, nattch = 0, marked = False\<rparr>],
             attaches = Map.empty\<rparr>\<rparr> ''s'' bytes_1_8 8 0 = None \<and>
   fst (destroy kernel_ok
     \<lparr>registry = [''s'' \<mapsto> \<lparr>id_seg = 7, size_seg = 16, addr = Ptr 4096, isAttached = True\<rparr>],
      sys = \<lparr>shm_segs = [7 \<mapsto> \<lparr>bytes = bs, nattch = 0, marked = False\<rparr>],
             attaches = Map.empty\<rparr>\<rparr> ''s'') = False"
  by (simp add: destroy_def write_shm_def auto_attach_def memcpy_to_def shmdt_def release_def
      shmctl_rmid_def manager_s16_holding_def kernel_rmid_fails_def kernel_ok_def Let_def)

subsection \<open>The bounds check\<close>

text \<open>
  As long as \<open>offset + size\<close> does not wrap around in \<open>size_t\<close>, a request that exceeds
  the segment's size is refused by \<open>write\<close> and by \<open>read\<close>, and nothing changes.
\<close>

lemma out_of_bounds_without_wraparound:
  assumes "registry m name = Some info"
    and "unat offset + unat sz > unat (size_seg info)"
    and "unat offset + unat sz < 2 ^ 64"
  shows "write_shm k m name data sz offset = Some (False, m) \<and>
         read k m name data sz offset = Some (False, data, m)"
proof -
  have "unat (offset + sz) = unat offset + unat sz"
    using assms(3) by (simp add: unat_word_ariths)
  then have "offset + sz > size_seg info"
    using assms(2) by (simp add: word_less_nat_alt)
  then show ?thesis
    using assms(1) by (simp add: write_shm_def read_def)
qed

text \<open>
  Claim C5 fails where the sum wraps around. On the sixteen-byte segment, \<open>write\<close> and
  \<open>read\<close> of 16 bytes at offset \<open>2^64 - 8\<close> pass the check (the sum is 8) and copy outside
  the segment; so does \<open>ShmWriteArray\<close> with 256 elements at offset \<open>2^64 - 2048\<close> (the
  sum is 0), and \<open>WriteArray\<close> of the other copy with one element at offset \<open>-8\<close>. None
  returns \<open>false\<close>: each is undefined behaviour.
\<close>

theorem out_of_bounds_wraparound:
  "write_shm kernel_ok manager_s16 ''s'' (replicate 16 0) 16 0xFFFFFFFFFFFFFFF8 = None \<and>
   read kernel_ok manager_s16 ''s'' (replicate 16 0) 16 0xFFFFFFFFFFFFFFF8 = None \<and>
   shm_write_array kernel_ok manager_s16 ''s'' (replicate 2048 0)
     \<lparr>size_info = 256, offset_info = 18446744073709549568\<rparr> = None \<and>
   WriteArray kernel_ok manager_s16 ''s'' bytes_1_8 1 (- 8) = None"
  by (simp add: write_shm_def read_def shm_write_array_def to_size_t_def WriteArray_def
      Attach_def manager_s16_def new_SharedMemInfo_def auto_attach_def shmat_def
      kernel_ok_def segment16_def memcpy_to_def memcpy_from_def Let_def)

subsection \<open>Write, then read\<close>

lemma memcpy_to_then_from:
  assumes "memcpy_to s p d src n = Some s2" and "n \<le> length dst"
  shows "memcpy_from s2 p d dst n = Some (take n src @ drop n dst)"
  using assms
  by (auto simp: memcpy_to_def memcpy_from_def min_def
      split: pointer.splits option.splits if_splits)

lemma auto_attach_Inr:
  assumes "auto_attach k m name info = Inr (info', m0)" and "registry m name = Some info"
  shows "registry m0 name = Some info'" and "size_seg info' = size_seg info"
    and "isAttached info'" and "addr info' \<noteq> Null"
  using assms
  by (auto simp: auto_attach_def shmat_def Let_def split: if_splits option.splits prod.splits)

lemma auto_attach_attached:
  "isAttached info \<Longrightarrow> addr info \<noteq> Null \<Longrightarrow> auto_attach k m name info = Inr (info, m)"
  by (simp add: auto_attach_def)

text \<open>
  After a write that returned \<open>true\<close>, a read of the same size at the same offset returns
  \<open>true\<close>, the bytes written in front of the rest of the caller's buffer, and changes
  nothing.
\<close>

lemma write_shm_then_read:
  assumes w: "write_shm k m name data sz offset = Some (True, m1)"
    and len: "unat sz \<le> length buf"
  shows "read k' m1 name buf sz offset =
           Some (True, take (unat sz) data @ drop (unat sz) buf, m1)"
proof -
  from w obtain info where reg: "registry m name = Some info"
    by (auto simp: write_shm_def split: option.splits)
  from w reg have inb: "\<not> offset + sz > size_seg info"
    by (auto simp: write_shm_def split: if_splits)
  from w reg inb obtain info' m0 where att: "auto_attach k m name info = Inr (info', m0)"
    by (auto simp: write_shm_def split: sum.splits)
  from w reg inb att obtain s2
    where cp: "memcpy_to (sys m0) (addr info') (uint offset) data (unat sz) = Some s2"
      and m1: "m1 = m0\<lparr>sys := s2\<rparr>"
    by (auto simp: write_shm_def split: option.splits)
  note facts = auto_attach_Inr [OF att reg]
  have reg1: "registry m1 name = Some info'"
    using facts(1) m1 by simp
  have att1: "auto_attach k' m1 name info' = Inr (info', m1)"
    using facts(3,4) by (rule auto_attach_attached)
  have "memcpy_from (sys m1) (addr info') (uint offset) buf (unat sz) =
          Some (take (unat sz) data @ drop (unat sz) buf)"
    using memcpy_to_then_from [OF cp len] m1 by simp
  then show ?thesis
    using reg1 inb facts(2) att1 by (simp add: read_def)
qed

text \<open>
  Claim C8. When \<open>write\<close> of the buffer \<open>b\<close> at an offset on a registered segment
  succeeds (which it only does with \<open>offset + length b\<close> within the segment's size), a
  \<open>read\<close> of \<open>length b\<close> bytes at that offset into a buffer of that length succeeds and
  returns exactly \<open>b\<close>.
\<close>

theorem write_read_roundtrip:
  assumes "write_shm k m name b (of_nat (length b)) offset = Some (True, m1)"
    and "length b < 2 ^ 64" and "length buf = length b"
  shows "read k' m1 name buf (of_nat (length b)) offset = Some (True, b, m1)"
proof -
  have "unat (of_nat (length b) :: size_t) = length b"
    using assms(2) by (simp add: unat_of_nat)
  then show ?thesis
    using write_shm_then_read [OF assms(1), of buf k'] assms(3) by simp
qed

theorem write_read_roundtrip_witness:
  "write_shm kernel_ok manager_s16 ''s'' bytes_1_8 (of_nat (length bytes_1_8)) 3 =
     Some (True, manager_s16_holding [0, 0, 0, 1, 2, 3, 4, 5, 6, 7, 8, 0, 0, 0, 0, 0]) \<and>
   length bytes_1_8 < 2 ^ 64 \<and> length (replicate 8 (0 :: byte)) = length bytes_1_8 \<and>
   read kernel_ok (manager_s16_holding [0, 0, 0, 1, 2, 3, 4, 5, 6, 7, 8, 0, 0, 0, 0, 0])
     ''s'' (replicate 8 0) 8 3 =
     Some (True, bytes_1_8, manager_s16_holding [0, 0, 0, 1, 2, 3, 4, 5, 6, 7, 8, 0, 0, 0, 0, 0])"
proof -
  have w: "write_shm kernel_ok manager_s16 ''s'' bytes_1_8 (of_nat (length bytes_1_8)) 3 =
     Some (True, manager_s16_holding [0, 0, 0, 1, 2, 3, 4, 5, 6, 7, 8, 0, 0, 0, 0, 0])"
    by (simp add: write_shm_def manager_s16_def manager_s16_holding_def new_SharedMemInfo_def
        auto_attach_def shmat_def kernel_ok_def segment16_def memcpy_to_def bytes_1_8_def
        Let_def)
  show ?thesis
    using write_read_roundtrip [OF w, of "replicate 8 0" kernel_ok] w
    by (simp add: bytes_1_8_def)
qed

subsection \<open>Counts and offsets of the array operations\<close>

lemma to_size_t_floor:
  assumes "0 \<le> x" and "x < 2 ^ 64"
  shows "to_size_t x = Some (word_of_int \<lfloor>x\<rfloor>)"
proof -
  have "\<lfloor>x\<rfloor> < 2 ^ 64"
    using assms(2) by (simp add: floor_less_iff)
  moreover have "0 \<le> \<lfloor>x\<rfloor>"
    using assms(1) by simp
  ultimately show ?thesis
    using assms(1) by (simp add: to_size_t_def)
qed

lemma uint_scast_nonneg:
  assumes nn: "0 \<le> sint (x :: c_int)"
  shows "uint (scast x :: size_t) = sint x"
proof -
  have "sint x < 2 ^ (LENGTH(32) - 1)" by (rule sint_lt)
  also have "(2 :: int) ^ (LENGTH(32) - 1) \<le> 2 ^ LENGTH(64)"
    by (rule power_increasing) simp_all
  finally have "take_bit LENGTH(64) (sint x) = sint x"
    using nn by (simp only: take_bit_int_eq_self)
  then show ?thesis
    by (simp only: scast_eq uint_word_of_int_eq)
qed

text \<open>
  Against claim C6 as stated: one element at offset 1. \<open>ShmWriteArray\<close> and \<open>WriteArray\<close>
  put the eight bytes at byte 1 of the segment; the byte offset \<open>1 * 8\<close> of the claim
  would put them at byte 8.
\<close>

theorem array_offset_counterexample:
  "shm_write_array kernel_ok manager_s16 ''s'' bytes_1_8 \<lparr>size_info = 1, offset_info = 1\<rparr> =
     Some (1, manager_s16_holding [0, 1, 2, 3, 4, 5, 6, 7, 8, 0, 0, 0, 0, 0, 0, 0]) \<and>
   WriteArray kernel_ok manager_s16 ''s'' bytes_1_8 1 1 =
     Some (True, manager_s16_holding [0, 1, 2, 3, 4, 5, 6, 7, 8, 0, 0, 0, 0, 0, 0, 0]) \<and>
   write_shm kernel_ok manager_s16 ''s'' bytes_1_8 (1 * 8) (1 * 8) =
     Some (True, manager_s16_holding [0, 0, 0, 0, 0, 0, 0, 0, 1, 2, 3, 4, 5, 6, 7, 8])"
  by (simp add: shm_write_array_def to_size_t_def write_shm_def WriteArray_def Attach_def
      manager_s16_def manager_s16_holding_def new_SharedMemInfo_def auto_attach_def shmat_def
      kernel_ok_def segment16_def memcpy_to_def bytes_1_8_def Let_def)

text \<open>
  Claim C6, amended. The array operations turn the element count into a byte length,
  \<open>count * 8\<close>, and use the offset as it is given, as a byte offset. \<open>ShmWriteArray\<close> and
  \<open>ShmReadArray\<close> truncate the two \<open>double\<close>s and are the byte-level \<open>write\<close> and \<open>read\<close>
  at that length and offset; \<open>WriteArray\<close> and \<open>ReadArray\<close> of the other copy, on an
  attached handle and with an offset that is not negative, check and copy as the
  byte-level operations do at length \<open>count * 8\<close> and the offset unchanged.
\<close>

theorem array_transfer_units:
  assumes "0 \<le> c" and "c < 2 ^ 64" and "0 \<le> off" and "off < 2 ^ 64"
    and "registry m name = Some h" and "isAttached h" and "addr h \<noteq> Null"
    and "0 \<le> sint offset"
  shows "shm_write_array k m name data \<lparr>size_info = c, offset_info = off\<rparr> =
           map_option (\<lambda>(result, m'). (if result then 1 else 0, m'))
             (write_shm k m name data (word_of_int \<lfloor>c\<rfloor> * 8) (word_of_int \<lfloor>off\<rfloor>)) \<and>
         shm_read_array k m name data \<lparr>size_info = c, offset_info = off\<rparr> =
           map_option (\<lambda>(result, data', m'). (if result then 1 else 0, data', m'))
             (read k m name data (word_of_int \<lfloor>c\<rfloor> * 8) (word_of_int \<lfloor>off\<rfloor>)) \<and>
         WriteArray k m name data count offset =
           write_shm k m name data (scast count * 8) (scast offset) \<and>
         ReadArray k m name data count offset =
           read k m name data (scast count * 8) (scast offset)"
proof -
  have a: "shm_write_array k m name data \<lparr>size_info = c, offset_info = off\<rparr> =
           map_option (\<lambda>(result, m'). (if result then 1 else 0, m'))
             (write_shm k m name data (word_of_int \<lfloor>c\<rfloor> * 8) (word_of_int \<lfloor>off\<rfloor>))"
    using to_size_t_floor [OF assms(1,2)] to_size_t_floor [OF assms(3,4)]
    by (simp add: shm_write_array_def split: option.splits)
  have b: "shm_read_array k m name data \<lparr>size_info = c, offset_info = off\<rparr> =
           map_option (\<lambda>(result, data', m'). (if result then 1 else 0, data', m'))
             (read k m name data (word_of_int \<lfloor>c\<rfloor> * 8) (word_of_int \<lfloor>off\<rfloor>))"
    using to_size_t_floor [OF assms(1,2)] to_size_t_floor [OF assms(3,4)]
    by (simp add: shm_read_array_def split: option.splits)
  have c: "WriteArray k m name data count offset =
           write_shm k m name data (scast count * 8) (scast offset)"
    using assms(5-7) uint_scast_nonneg [OF assms(8)]
    by (simp add: WriteArray_def write_shm_def Attach_def auto_attach_def)
  have d: "ReadArray k m name data count offset =
           read k m name data (scast count * 8) (scast offset)"
    using assms(5-7) uint_scast_nonneg [OF assms(8)]
    by (simp add: ReadArray_def read_def Attach_def auto_attach_def)
  from a b c d show ?thesis by simp
qed

theorem array_transfer_units_witness:
  "(0 :: real) \<le> 1 \<and> (1 :: real) < 2 ^ 64 \<and>
   registry (manager_s16_holding (bytes segment16)) ''s'' =
     Some \<lparr>id_seg = 7, size_seg = 16, addr = Ptr 4096, isAttached = True\<rparr> \<and>
   isAttached \<lparr>id_seg = 7, size_seg = 16, addr = Ptr 4096, isAttached = True\<rparr> \<and>
   addr \<lparr>id_seg = 7, size_seg = 16, addr = Ptr 4096, isAttached = True\<rparr> \<noteq> Null \<and>
   0 \<le> sint (1 :: c_int) \<and>
   shm_write_array kernel_ok (manager_s16_holding (bytes segment16)) ''s'' bytes_1_8
       \<lparr>size_info = 1, offset_info = 1\<rparr> =
     Some (1, manager_s16_holding [0, 1, 2, 3, 4, 5, 6, 7, 8, 0, 0, 0, 0, 0, 0, 0]) \<and>
   shm_read_array kernel_ok (manager_s16_holding (bytes segment16)) ''s'' bytes_1_8
       \<lparr>size_info = 1, offset_info = 1\<rparr> =
     Some (1, [0, 0, 0, 0, 0, 0, 0, 0], manager_s16_holding (bytes segment16)) \<and>
   WriteArray kernel_ok (manager_s16_holding (bytes segment16)) ''s'' bytes_1_8 1 1 =
     Some (True, manager_s16_holding [0, 1, 2, 3, 4, 5, 6, 7, 8, 0, 0, 0, 0, 0, 0, 0]) \<and>
   ReadArray kernel_ok (manager_s16_holding (bytes segment16)) ''s'' bytes_1_8 1 1 =
     Some (True, [0, 0, 0, 0, 0, 0, 0, 0], manager_s16_holding (bytes segment16))"
  using array_transfer_units
    [of 1 1 "manager_s16_holding (bytes segment16)" "''s''"
        "\<lparr>id_seg = 7, size_seg = 16, addr = Ptr 4096, isAttached = True\<rparr>" 1
        kernel_ok bytes_1_8 1]
  by (simp add: write_shm_def read_def manager_s16_holding_def auto_attach_def
      memcpy_to_def memcpy_from_def segment16_def bytes_1_8_def)

section \<open>Theorems: publish and consume\<close>

subsection \<open>Stores and loads\<close>

lemma store_header_frame:
  assumes "store_header st p f upd = Some st'"
  shows "shm_objects st' = shm_objects st" and "sems st' = sems st"
    and "trace st' = trace st @ [Store f]"
  using assms
  by (auto simp: store_header_def split: map_addr.splits option.splits if_splits)

lemma store_header_load_header:
  assumes "store_header st p f upd = Some st'"
  shows "\<exists>h. load_header st p = Some h \<and> load_header st' p = Some (upd h)"
  using assms
  by (auto simp: store_header_def load_header_def split: map_addr.splits option.splits if_splits)

lemma store_header_load_cell:
  assumes "store_header st p f upd = Some st'"
  shows "load_cell st' q j = load_cell st q j"
  using assms
  by (auto simp: store_header_def load_cell_def split: map_addr.splits option.splits if_splits)

lemma strcpy_header_Some:
  "strcpy_header st p f room upd str = Some st' \<Longrightarrow> store_header st p f (upd str) = Some st'"
  by (simp add: strcpy_header_def split: if_splits)

lemma store_cell_frame:
  assumes "store_cell st p i v = Some st'"
  shows "shm_objects st' = shm_objects st" and "sems st' = sems st"
    and "trace st' = trace st @ [Store (F_cell i)]"
  using assms
  by (auto simp: store_cell_def split: map_addr.splits option.splits if_splits)

lemma store_cell_load_header:
  assumes "store_cell st p i v = Some st'"
  shows "load_header st' q = load_header st q"
  using assms
  by (auto simp: store_cell_def load_header_def split: map_addr.splits option.splits if_splits)

lemma store_cell_load_cell:
  assumes "store_cell st p i v = Some st'"
  shows "load_cell st' p j = (if j = i then Some v else load_cell st p j)"
  using assms
  by (auto simp: store_cell_def load_cell_def split: map_addr.splits option.splits if_splits)

lemma load_cong:
  assumes "shm_fs st' = shm_fs st"
  shows "load_header st' p = load_header st p" and "load_cell st' p j = load_cell st p j"
  unfolding load_header_def load_cell_def assms by (rule refl)+

lemma sem_post_frame:
  "shm_objects (sem_post st nm) = shm_objects st"
  "shm_fs (sem_post st nm) = shm_fs st"
  by (simp_all add: sem_post_def split: option.splits)

lemma sem_post_load:
  "load_header (sem_post st nm) p = load_header st p"
  "load_cell (sem_post st nm) p j = load_cell st p j"
  by (rule load_cong, rule sem_post_frame)+

lemma sem_open_creat_frame:
  assumes "sem_open_creat os st nm = (opened, st')"
  shows "shm_objects st' = shm_objects st" and "shm_fs st' = shm_fs st"
    and "trace st' = trace st"
    and "\<not> opened \<Longrightarrow> st' = st" and "opened \<Longrightarrow> sems st' nm \<noteq> None"
  using assms
  by (auto simp: sem_open_creat_def split: option.splits if_splits)

subsection \<open>The copy loops\<close>

lemma copy_in_frame:
  "copy_in st p a n i = Some st' \<Longrightarrow> i \<le> n \<Longrightarrow>
   shm_objects st' = shm_objects st \<and> sems st' = sems st \<and>
   trace st' = trace st @ map (\<lambda>j. Store (F_cell j)) [i..<n] \<and>
   load_header st' q = load_header st q"
proof (induction st p a n i rule: copy_in.induct)
  case (1 st p array n i)
  show ?case
  proof (cases "i < n")
    case False
    with "1.prems" show ?thesis by simp
  next
    case True
    with "1.prems" have inb: "\<not> length array \<le> i"
      by (auto split: if_splits)
    with True "1.prems" obtain st1 where s: "store_cell st p i (array ! i) = Some st1"
      and rest: "copy_in st1 p array n (i + 1) = Some st'"
      by (auto split: option.splits)
    have ih: "shm_objects st' = shm_objects st1 \<and> sems st' = sems st1 \<and>
        trace st' = trace st1 @ map (\<lambda>j. Store (F_cell j)) [i + 1..<n] \<and>
        load_header st' q = load_header st1 q"
      using "1.IH" [OF True inb s rest] True by simp
    have "[i..<n] = i # [i + 1..<n]"
      using True by (simp add: upt_conv_Cons)
    then show ?thesis
      using ih store_cell_frame [OF s] store_cell_load_header [OF s] by simp
  qed
qed

lemma copy_in_cells:
  "copy_in st p a n i = Some st' \<Longrightarrow> i \<le> n \<Longrightarrow>
   (i < n \<longrightarrow> n \<le> length a) \<and>
   (\<forall>j < n. load_cell st' p j = (if i \<le> j then Some (a ! j) else load_cell st p j))"
proof (induction st p a n i rule: copy_in.induct)
  case (1 st p array n i)
  show ?case
  proof (cases "i < n")
    case False
    with "1.prems" show ?thesis by simp
  next
    case True
    with "1.prems" have inb: "\<not> length array \<le> i"
      by (auto split: if_splits)
    with True "1.prems" obtain st1 where s: "store_cell st p i (array ! i) = Some st1"
      and rest: "copy_in st1 p array n (i + 1) = Some st'"
      by (auto split: option.splits)
    have ih: "(i + 1 < n \<longrightarrow> n \<le> length array) \<and>
        (\<forall>j < n. load_cell st' p j =
                  (if i + 1 \<le> j then Some (array ! j) else load_cell st1 p j))"
      using "1.IH" [OF True inb s rest] True by simp
    have len: "n \<le> length array"
      using ih inb True by (cases "i + 1 < n") auto
    have "load_cell st' p j = (if i \<le> j then Some (array ! j) else load_cell st p j)"
      if "j < n" for j
    proof -
      have a: "load_cell st' p j =
                 (if i + 1 \<le> j then Some (array ! j) else load_cell st1 p j)"
        using ih that by blast
      have b: "load_cell st1 p j = (if j = i then Some (array ! i) else load_cell st p j)"
        by (rule store_cell_load_cell [OF s])
      consider "j < i" | "j = i" | "i < j" by linarith
      then show ?thesis
      proof cases
        case 1 then show ?thesis using a b by simp
      next
        case 2 then show ?thesis using a b by simp
      next
        case 3 then show ?thesis using a by simp
      qed
    qed
    with len show ?thesis by simp
  qed
qed

subsection \<open>The table of slots\<close>

lemma find_free_slot_from_range:
  "0 \<le> find_free_slot_from xs i \<Longrightarrow> 0 \<le> i \<Longrightarrow>
   i \<le> find_free_slot_from xs i \<and> nat (find_free_slot_from xs i - i) < length xs"
proof (induction xs arbitrary: i)
  case Nil
  then show ?case by simp
next
  case (Cons x xs)
  show ?case
  proof (cases "in_use x")
    case False
    then show ?thesis by simp
  next
    case True
    with Cons.prems have "0 \<le> find_free_slot_from xs (i + 1)" by simp
    with Cons.IH [of "i + 1"] Cons.prems
    have "i + 1 \<le> find_free_slot_from xs (i + 1) \<and>
          nat (find_free_slot_from xs (i + 1) - (i + 1)) < length xs"
      by simp
    with True show ?thesis by (simp add: nat_diff_distrib) linarith
  qed
qed

lemma find_slot_by_name_from_none:
  "find_slot_by_name_from xs nm i < 0 \<Longrightarrow> 0 \<le> i \<Longrightarrow>
   j < length xs \<Longrightarrow> \<not> (in_use (xs ! j) \<and> name_slot (xs ! j) = nm)"
proof (induction xs arbitrary: i j)
  case Nil
  then show ?case by simp
next
  case (Cons x xs)
  from Cons.prems(1,2) have hd: "\<not> (in_use x \<and> name_slot x = nm)"
    by (auto split: if_splits)
  with Cons.prems(1) have tl: "find_slot_by_name_from xs nm (i + 1) < 0"
    by (auto split: if_splits)
  show ?case
  proof (cases j)
    case 0
    with hd show ?thesis by simp
  next
    case (Suc j')
    with Cons.prems(3) have "j' < length xs" by simp
    with Cons.IH [OF tl _ this] Cons.prems(2) Suc show ?thesis by simp
  qed
qed

lemma find_slot_by_name_from_update:
  "(\<And>j. j < length xs \<Longrightarrow> \<not> (in_use (xs ! j) \<and> name_slot (xs ! j) = nm)) \<Longrightarrow>
   k < length xs \<Longrightarrow> in_use s \<Longrightarrow> name_slot s = nm \<Longrightarrow>
   find_slot_by_name_from (xs[k := s]) nm i = i + int k"
proof (induction xs arbitrary: i k)
  case Nil
  then show ?case by simp
next
  case (Cons x xs)
  show ?case
  proof (cases k)
    case 0
    with Cons.prems show ?thesis by simp
  next
    case (Suc k')
    have hd: "\<not> (in_use x \<and> name_slot x = nm)"
      using Cons.prems(1) [of 0] by simp
    have tl: "\<And>j. j < length xs \<Longrightarrow> \<not> (in_use (xs ! j) \<and> name_slot (xs ! j) = nm)"
      using Cons.prems(1) [of "Suc j" for j] by simp
    have "find_slot_by_name_from (xs[k' := s]) nm (i + 1) = i + 1 + int k'"
      using Cons.IH [OF tl _ Cons.prems(3,4), of k' "i + 1"] Cons.prems(2) Suc by simp
    with hd Suc show ?thesis by auto
  qed
qed


lemma close_frame:
  "shm_fs (close st fd) = shm_fs st" "sems (close st fd) = sems st"
  "trace (close st fd) = trace st"
  by (simp_all add: close_def)

lemma shm_open_creat_frame:
  "shm_objects (shm_open_creat st nm) = shm_objects st"
  "sems (shm_open_creat st nm) = sems st" "trace (shm_open_creat st nm) = trace st"
  "shm_fs (shm_open_creat st nm) nm \<noteq> None"
  by (simp_all add: shm_open_creat_def split: option.splits)

lemma ftruncate_frame:
  "shm_objects (ftruncate st nm sz) = shm_objects st"
  "sems (ftruncate st nm sz) = sems st" "trace (ftruncate st nm sz) = trace st"
  "(shm_fs (ftruncate st nm sz) nm \<noteq> None) = (shm_fs st nm \<noteq> None)"
  by (simp_all add: ftruncate_def split: option.splits)

lemma create_or_open_frame:
  assumes "create_or_open os st nm sz = (slot, st1)"
  shows "sems st1 = sems st" and "trace st1 = trace st"
  using assms
  by (auto simp: create_or_open_def Let_def close_frame shm_open_creat_frame
      ftruncate_frame split: if_splits)

lemma create_or_open_registered:
  assumes c: "create_or_open os st nm sz = (slot, st1)" and ok: "0 \<le> slot"
  shows "find_slot_by_name st1 nm = slot"
proof (cases "0 \<le> find_slot_by_name st nm")
  case True
  with c show ?thesis by (auto simp: create_or_open_def Let_def)
next
  case False
  let ?tbl = "take MAX_SHM_OBJECTS (shm_objects st)"
  let ?k = "find_free_slot st"
  let ?new = "\<lparr>name_slot = nm, addr_slot = Mapping nm (unat sz), size_slot = sz,
               fd_slot = shm_open_ret os nm, in_use = True\<rparr>"
  from c ok False have free: "0 \<le> ?k" and slot: "slot = ?k"
    by (auto simp: create_or_open_def Let_def split: if_splits)
  from c ok False have tbl1: "shm_objects st1 = (shm_objects st)[nat ?k := ?new]"
    by (auto simp: create_or_open_def Let_def shm_open_creat_frame ftruncate_frame
        split: if_splits)
  have rng: "nat ?k < length ?tbl"
    using find_free_slot_from_range [of ?tbl 0] free by (simp add: find_free_slot_def)
  have none: "\<And>j. j < length ?tbl \<Longrightarrow> \<not> (in_use (?tbl ! j) \<and> name_slot (?tbl ! j) = nm)"
    using find_slot_by_name_from_none [of ?tbl nm 0] False
    by (simp add: find_slot_by_name_def)
  have "find_slot_by_name_from (?tbl[nat ?k := ?new]) nm 0 = 0 + int (nat ?k)"
    using none rng by (intro find_slot_by_name_from_update) simp_all
  then show ?thesis
    using free slot tbl1 by (simp add: find_slot_by_name_def take_update_swap)
qed

lemma create_or_open_again:
  assumes "create_or_open os st nm sz = (slot, st1)" and "0 \<le> slot"
    and "shm_objects st2 = shm_objects st1"
  shows "create_or_open os' st2 nm sz' = (slot, st2)"
proof -
  have "find_slot_by_name st2 nm = slot"
    using create_or_open_registered [OF assms(1,2)] assms(3)
    by (simp add: find_slot_by_name_def)
  with assms(2) show ?thesis
    by (simp add: create_or_open_def Let_def)
qed


subsection \<open>Runs from the start state\<close>

lemma table_start: "replicate MAX_SHM_OBJECTS empty_slot = empty_slot # replicate 99 empty_slot"
proof -
  have "MAX_SHM_OBJECTS = Suc 99" by (simp add: MAX_SHM_OBJECTS_def)
  then have "replicate MAX_SHM_OBJECTS empty_slot = replicate (Suc 99) empty_slot"
    by (rule arg_cong)
  then show ?thesis by (simp only: replicate_Suc)
qed

lemma find_slot_by_name_from_empty:
  "find_slot_by_name_from (replicate n empty_slot) nm i = - 1"
  by (induction n arbitrary: i) (simp_all add: empty_slot_def)

lemma create_start:
  "create_or_open os_ok posix_start nm sz =
     (0, \<lparr>shm_objects = slot_of nm sz # replicate 99 empty_slot,
          shm_fs = [nm \<mapsto> resize_object \<lparr>obj_size = 0, hdr = zero_header, cells = []\<rparr> (unat sz)],
          sems = Map.empty, trace = []\<rparr>)"
  apply (simp add: create_or_open_def find_slot_by_name_def find_free_slot_def posix_start_def
      find_slot_by_name_from_empty Let_def)
  apply (simp add: table_start)
  apply (simp add: empty_slot_def os_ok_def shm_open_creat_def ftruncate_def slot_of_def)
  done

lemma create_channel:
  "create_or_open os (channel name a c t) (''/'' @ name) sz = (0, channel name a c t)"
  by (simp add: create_or_open_def find_slot_by_name_def channel_def slot_of_def
      MAX_SHM_OBJECTS_def)

lemma replicate_3: "replicate 3 (0 :: int) = [0, 0, 0]"
  by (simp add: numeral_eq_Suc)

lemmas posix_defs =
  write_array_to_shared_memory_def read_array_from_shared_memory_def
  sizeof_SharedMemoryData_def sizeof_double_def get_address_def MAX_SHM_OBJECTS_def
  store_header_def strcpy_header_def load_header_def load_cell_def store_cell_def
  sem_open_creat_def sem_open_existing_def sem_timedwait_def sem_post_def
  resize_KN_def Let_def

lemma os_ok_simps:
  "shm_open_ret os_ok nm = 3" "ftruncate_ok os_ok fd" "mmap_ok os_ok fd" "sem_open_ok os_ok nm"
  by (simp_all add: os_ok_def)

lemma publish_start_3:
  "write_array_to_shared_memory os_ok (posix_start :: int posix) ''a'' (Some [1, 2, 3]) =
     Some (True, channel ''a'' [1, 2, 3] 1 (publish_events ''a'' 3))"
  by (simp add: posix_defs os_ok_simps create_start resize_object_def replicate_3 channel_def
      publish_events_def header_events_def slot_of_def envelope_def zero_header_def upt_rec)

subsection \<open>Publish\<close>

lemma get_address_cong:
  "shm_objects st' = shm_objects st \<Longrightarrow> get_address st' slot = get_address st slot"
  by (simp add: get_address_def)

lemma find_slot_by_name_cong:
  "shm_objects st' = shm_objects st \<Longrightarrow> find_slot_by_name st' nm = find_slot_by_name st nm"
  by (simp add: find_slot_by_name_def)

lemma sem_post_trace:
  "sems st nm \<noteq> None \<Longrightarrow> trace (sem_post st nm) = trace st @ [Post nm]"
  by (auto simp: sem_post_def)


lemma option_case_SomeE:
  assumes "(case x of None \<Rightarrow> None | Some y \<Rightarrow> f y) = Some r"
  obtains y where "x = Some y" and "f y = Some r"
  using assms by (cases x) simp_all

lemma publish_run:
  fixes a :: "('d::zero) list"
  assumes run: "write_array_to_shared_memory os st name (Some a) = Some (ok, st')"
    and c: "create_or_open os st (''/'' @ name)
              (of_nat sizeof_SharedMemoryData + of_nat (length a) * of_nat sizeof_double) =
              (slot, st1)"
    and slot: "\<not> slot < 0"
  obtains st2 st3 st4 st5 opened st6 where
    "store_header st1 (get_address st1 slot) F_size
       (size_data_update (\<lambda>_. of_nat (length a) * of_nat sizeof_double)) = Some st2"
    "store_header st2 (get_address st1 slot) F_elements
       (elements_update (\<lambda>_. of_nat (length a))) = Some st3"
    "strcpy_header st3 (get_address st1 slot) F_data_type 32
       (\<lambda>s. data_type_update (\<lambda>_. s)) ''double_array'' = Some st4"
    "strcpy_header st4 (get_address st1 slot) F_semaphore_name 64
       (\<lambda>s. semaphore_name_update (\<lambda>_. s)) (''/sem_'' @ name) = Some st5"
    "sem_open_creat os st5 (''/sem_'' @ name) = (opened, st6)"
    "(if \<not> opened then Some (False, st6)
      else case copy_in st6 (get_address st1 slot) a (unat (of_nat (length a) :: size_t)) 0 of
             None \<Rightarrow> None
           | Some st7 \<Rightarrow> Some (True, sem_post st7 (''/sem_'' @ name))) = Some (ok, st')"
proof -
  let ?p = "get_address st1 slot"
  let ?sem = "''/sem_'' @ name"
  let ?elems = "of_nat (length a) :: size_t"
  let ?k5 = "\<lambda>st5. case sem_open_creat os st5 ?sem of
                (opened, st6) \<Rightarrow>
                  if \<not> opened then Some (False, st6)
                  else case copy_in st6 ?p a (unat ?elems) 0 of
                         None \<Rightarrow> None
                       | Some st7 \<Rightarrow> Some (True, sem_post st7 ?sem)"
  let ?k4 = "\<lambda>st4. case strcpy_header st4 ?p F_semaphore_name 64
                        (\<lambda>s. semaphore_name_update (\<lambda>_. s)) ?sem of
                None \<Rightarrow> None | Some st5 \<Rightarrow> ?k5 st5"
  let ?k3 = "\<lambda>st3. case strcpy_header st3 ?p F_data_type 32
                        (\<lambda>s. data_type_update (\<lambda>_. s)) ''double_array'' of
                None \<Rightarrow> None | Some st4 \<Rightarrow> ?k4 st4"
  let ?k2 = "\<lambda>st2. case store_header st2 ?p F_elements (elements_update (\<lambda>_. ?elems)) of
                None \<Rightarrow> None | Some st3 \<Rightarrow> ?k3 st3"
  have run1: "(case store_header st1 ?p F_size
                 (size_data_update (\<lambda>_. ?elems * of_nat sizeof_double)) of
                None \<Rightarrow> None | Some st2 \<Rightarrow> ?k2 st2) = Some (ok, st')"
    using run unfolding write_array_to_shared_memory_def Let_def
    by (simp only: option.case c prod.case slot if_False)
  from run1 obtain st2 where s2: "store_header st1 ?p F_size
        (size_data_update (\<lambda>_. ?elems * of_nat sizeof_double)) = Some st2"
    and run2: "?k2 st2 = Some (ok, st')"
    by (rule option_case_SomeE)
  from run2 obtain st3 where s3: "store_header st2 ?p F_elements
        (elements_update (\<lambda>_. ?elems)) = Some st3"
    and run3: "?k3 st3 = Some (ok, st')"
    by (rule option_case_SomeE)
  from run3 obtain st4 where s4: "strcpy_header st3 ?p F_data_type 32
        (\<lambda>s. data_type_update (\<lambda>_. s)) ''double_array'' = Some st4"
    and run4: "?k4 st4 = Some (ok, st')"
    by (rule option_case_SomeE)
  from run4 obtain st5 where s5: "strcpy_header st4 ?p F_semaphore_name 64
        (\<lambda>s. semaphore_name_update (\<lambda>_. s)) ?sem = Some st5"
    and run5: "?k5 st5 = Some (ok, st')"
    by (rule option_case_SomeE)
  obtain opened st6 where o: "sem_open_creat os st5 ?sem = (opened, st6)"
    by (cases "sem_open_creat os st5 ?sem") auto
  from run5 have "(if \<not> opened then Some (False, st6)
      else case copy_in st6 ?p a (unat ?elems) 0 of
             None \<Rightarrow> None
           | Some st7 \<Rightarrow> Some (True, sem_post st7 ?sem)) = Some (ok, st')"
    unfolding o by (simp only: prod.case)
  with s2 s3 s4 s5 o show ?thesis by (rule that)
qed


text \<open>
  Claim C2. For every publish of an array (of fewer than \<open>2^64\<close> elements, as every
  array is) that returns: if it returns \<open>true\<close>, the events it added to the trace are
  the stores of the four header fields, the stores of all the doubles, and then, last
  and once, the post on the semaphore; the segment registered under the name then holds
  the envelope and every element of the array. If it returns \<open>false\<close> (the slot could
  not be had, or the semaphore not opened), it has added no event or only the four
  header stores, so no post, and every semaphore has the value it had.
\<close>

theorem publish_signal_after_data:
  fixes a :: "('d::zero) list"
  assumes run: "write_array_to_shared_memory os st name (Some a) = Some (ok, st')"
    and len: "length a < 2 ^ 64"
  shows "if ok
         then trace st' = trace st @ publish_events name (length a) \<and>
              load_header st' (get_address st' (find_slot_by_name st' (''/'' @ name))) =
                Some (envelope name (length a)) \<and>
              map (load_cell st' (get_address st' (find_slot_by_name st' (''/'' @ name))))
                [0..<length a] = map Some a
         else sems st' = sems st \<and>
              (trace st' = trace st \<or> trace st' = trace st @ header_events)"
proof -
  let ?elems = "of_nat (length a) :: size_t"
  let ?data_size = "?elems * of_nat sizeof_double"
  let ?total = "of_nat sizeof_SharedMemoryData + ?data_size"
  let ?nm = "''/'' @ name"
  let ?sem = "''/sem_'' @ name"
  obtain slot st1 where c: "create_or_open os st ?nm ?total = (slot, st1)"
    by (cases "create_or_open os st ?nm ?total") auto
  note frame1 = create_or_open_frame [OF c]
  show ?thesis
  proof (cases "slot < 0")
    case True
    have "Some (False, st1) = Some (ok, st')"
      using run unfolding write_array_to_shared_memory_def Let_def
      by (simp only: option.case c prod.case True if_True)
    then have "ok = False" and "st' = st1" by simp_all
    with frame1 show ?thesis by simp
  next
    case False
    let ?p = "get_address st1 slot"
    from publish_run [OF run c False] obtain st2 st3 st4 st5 opened st6 where
      s2: "store_header st1 ?p F_size (size_data_update (\<lambda>_. ?data_size)) = Some st2"
      and s3: "store_header st2 ?p F_elements (elements_update (\<lambda>_. ?elems)) = Some st3"
      and s4': "strcpy_header st3 ?p F_data_type 32 (\<lambda>s. data_type_update (\<lambda>_. s))
                  ''double_array'' = Some st4"
      and s5': "strcpy_header st4 ?p F_semaphore_name 64
                  (\<lambda>s. semaphore_name_update (\<lambda>_. s)) ?sem = Some st5"
      and o: "sem_open_creat os st5 ?sem = (opened, st6)"
      and fin: "(if \<not> opened then Some (False, st6)
                 else case copy_in st6 ?p a (unat ?elems) 0 of
                        None \<Rightarrow> None
                      | Some st7 \<Rightarrow> Some (True, sem_post st7 ?sem)) = Some (ok, st')"
      by blast
    note s4 = strcpy_header_Some [OF s4'] and s5 = strcpy_header_Some [OF s5']
    have tr5: "trace st5 = trace st @ header_events"
      using store_header_frame(3) [OF s2] store_header_frame(3) [OF s3]
        store_header_frame(3) [OF s4] store_header_frame(3) [OF s5] frame1(2)
      by (simp add: header_events_def)
    have sems5: "sems st5 = sems st"
      using store_header_frame(2) [OF s2] store_header_frame(2) [OF s3]
        store_header_frame(2) [OF s4] store_header_frame(2) [OF s5] frame1(1)
      by simp
    have objs5: "shm_objects st5 = shm_objects st1"
      using store_header_frame(1) [OF s2] store_header_frame(1) [OF s3]
        store_header_frame(1) [OF s4] store_header_frame(1) [OF s5]
      by simp
    show ?thesis
    proof (cases opened)
      case False
      with fin have "ok = False" and "st' = st6" by simp_all
      moreover have "st6 = st5"
        using sem_open_creat_frame(4) [OF o] False by simp
      ultimately show ?thesis
        using tr5 sems5 by simp
    next
      case True
      with fin have fin': "(case copy_in st6 ?p a (unat ?elems) 0 of
                        None \<Rightarrow> None
                      | Some st7 \<Rightarrow> Some (True, sem_post st7 ?sem)) = Some (ok, st')"
        by simp
      from fin' obtain st7 where cp: "copy_in st6 ?p a (unat ?elems) 0 = Some st7"
        and "Some (True, sem_post st7 ?sem) = Some (ok, st')"
        by (rule option_case_SomeE)
      then have ok: "ok = True" and st': "st' = sem_post st7 ?sem"
        by simp_all
      have n: "unat ?elems = length a"
        using len by (simp add: unat_of_nat)
      have cf: "shm_objects st7 = shm_objects st6" "sems st7 = sems st6"
        "trace st7 = trace st6 @ map (\<lambda>j. Store (F_cell j)) [0..<length a]"
        "load_header st7 ?p = load_header st6 ?p"
        using copy_in_frame [OF cp, of ?p] n by simp_all
      have tr: "trace st' = trace st @ publish_events name (length a)"
      proof -
        have "sems st7 ?sem \<noteq> None"
          using cf(2) sem_open_creat_frame(5) [OF o] True by simp
        then have "trace st' = trace st7 @ [Post ?sem]"
          unfolding st' by (rule sem_post_trace)
        then show ?thesis
          using cf(3) sem_open_creat_frame(3) [OF o] tr5
          by (simp add: publish_events_def header_events_def)
      qed
      have objs: "shm_objects st' = shm_objects st1"
        using cf(1) sem_open_creat_frame(1) [OF o] objs5
        by (simp add: st' sem_post_frame)
      have p: "get_address st' (find_slot_by_name st' ?nm) = ?p"
        using create_or_open_registered [OF c] False
          find_slot_by_name_cong [OF objs] get_address_cong [OF objs]
        by simp
      have hd: "load_header st' ?p = Some (envelope name (length a))"
      proof -
        obtain h1 where "load_header st2 ?p =
            Some (size_data_update (\<lambda>_. ?data_size) h1)"
          using store_header_load_header [OF s2] by auto
        then have "load_header st3 ?p =
            Some (elements_update (\<lambda>_. ?elems) (size_data_update (\<lambda>_. ?data_size) h1))"
          using store_header_load_header [OF s3] by auto
        then have "load_header st4 ?p =
            Some (data_type_update (\<lambda>_. ''double_array'')
                   (elements_update (\<lambda>_. ?elems) (size_data_update (\<lambda>_. ?data_size) h1)))"
          using store_header_load_header [OF s4] by auto
        then have "load_header st5 ?p =
            Some (semaphore_name_update (\<lambda>_. ?sem)
                   (data_type_update (\<lambda>_. ''double_array'')
                     (elements_update (\<lambda>_. ?elems) (size_data_update (\<lambda>_. ?data_size) h1))))"
          using store_header_load_header [OF s5] by auto
        then have "load_header st5 ?p = Some (envelope name (length a))"
          by (simp add: envelope_def sizeof_double_def mult.commute)
        moreover have "load_header st6 ?p = load_header st5 ?p"
          by (rule load_cong) (rule sem_open_creat_frame(2) [OF o])
        ultimately show ?thesis
          using cf(4) by (simp add: st' sem_post_load)
      qed
      have "map (load_cell st' ?p) [0..<length a] = map Some a"
      proof (rule nth_equalityI)
        show "length (map (load_cell st' ?p) [0..<length a]) = length (map Some a)"
          by simp
      next
        fix j assume "j < length (map (load_cell st' ?p) [0..<length a])"
        then have j: "j < length a" by simp
        have "load_cell st7 ?p j = Some (a ! j)"
          using copy_in_cells [OF cp] j n by simp
        then show "map (load_cell st' ?p) [0..<length a] ! j = map Some a ! j"
          using j by (simp add: st' sem_post_load)
      qed
      with ok tr hd p show ?thesis by simp
    qed
  qed
qed


theorem publish_signal_after_data_witness:
  "write_array_to_shared_memory os_ok posix_start ''a'' (Some [1, 2, 3 :: int]) =
     Some (True, channel ''a'' [1, 2, 3] 1 (publish_events ''a'' 3)) \<and>
   length [1, 2, 3 :: int] < 2 ^ 64 \<and>
   trace (channel ''a'' [1, 2, 3 :: int] 1 (publish_events ''a'' 3)) =
     trace (posix_start :: int posix) @ publish_events ''a'' (length [1, 2, 3 :: int]) \<and>
   load_header (channel ''a'' [1, 2, 3 :: int] 1 (publish_events ''a'' 3))
     (get_address (channel ''a'' [1, 2, 3 :: int] 1 (publish_events ''a'' 3))
       (find_slot_by_name (channel ''a'' [1, 2, 3 :: int] 1 (publish_events ''a'' 3))
         (''/'' @ ''a''))) = Some (envelope ''a'' (length [1, 2, 3 :: int])) \<and>
   map (load_cell (channel ''a'' [1, 2, 3 :: int] 1 (publish_events ''a'' 3))
         (get_address (channel ''a'' [1, 2, 3 :: int] 1 (publish_events ''a'' 3))
           (find_slot_by_name (channel ''a'' [1, 2, 3 :: int] 1 (publish_events ''a'' 3))
             (''/'' @ ''a''))))
     [0..<length [1, 2, 3 :: int]] = map Some [1, 2, 3]"
proof -
  have len: "length [1, 2, 3 :: int] < 2 ^ 64" by simp
  from publish_signal_after_data [OF publish_start_3 len] publish_start_3 len
  show ?thesis by simp
qed

subsection \<open>Publish into a segment that is already registered\<close>

lemma publish_start_1:
  "write_array_to_shared_memory os_ok (posix_start :: int posix) ''a'' (Some [5]) =
     Some (True, channel ''a'' [5] 1 (publish_events ''a'' 1))"
  by (simp add: posix_defs os_ok_simps create_start resize_object_def channel_def
      publish_events_def header_events_def slot_of_def envelope_def zero_header_def upt_rec)

lemma publish_again_overruns:
  "write_array_to_shared_memory os_ok (channel ''a'' [5 :: int] 1 (publish_events ''a'' 1)) ''a''
     (Some [6, 7]) = None"
  by (simp add: write_array_to_shared_memory_def create_channel [of _ "''a''", simplified]
      Let_def)
    (simp add: posix_defs os_ok_simps channel_def slot_of_def envelope_def)

text \<open>
  Claim C3 fails on the code. After a publish of one element under the name \<open>a\<close> the
  process holds a segment of 120 bytes. A second publish of two elements needs 128
  bytes; \<open>create_or_open\<close> returns the registered slot without looking at its size, and
  the store of the second element lies outside the mapping: undefined behaviour, not the
  return value \<open>false\<close>.
\<close>

theorem publish_into_smaller_segment:
  "write_array_to_shared_memory os_ok (posix_start :: int posix) ''a'' (Some [5]) =
     Some (True, channel ''a'' [5] 1 (publish_events ''a'' 1)) \<and>
   write_array_to_shared_memory os_ok (channel ''a'' [5 :: int] 1 (publish_events ''a'' 1)) ''a''
     (Some [6, 7]) = None"
  using publish_start_1 publish_again_overruns by simp

subsection \<open>Consume before any publish\<close>

lemma consume_missing:
  "read_array_from_shared_memory os_ok (posix_start :: int posix) ''x'' (Some [7]) =
     Some (False, Some [7],
           \<lparr>shm_objects = slot_of ''/x'' 112 # replicate 99 empty_slot,
            shm_fs = [''/x'' \<mapsto> \<lparr>obj_size = 112, hdr = zero_header, cells = []\<rparr>],
            sems = Map.empty, trace = []\<rparr>)"
  by (simp add: posix_defs os_ok_simps create_start resize_object_def slot_of_def
      zero_header_def)





lemma unat_sizeof_header:
  "unat (of_nat sizeof_SharedMemoryData :: size_t) = 112"
  by (simp add: sizeof_SharedMemoryData_def)

text \<open>
  Against claim C4 as stated: in a process with an empty table and no shared memory
  object at all, consume of the name \<open>x\<close> returns \<open>false\<close> and leaves behind an object
  \<open>/x\<close> of the size of the header, registered in the first slot.
\<close>

theorem consume_missing_counterexample:
  "shm_fs (posix_start :: int posix) ''/x'' = None \<and>
   read_array_from_shared_memory os_ok (posix_start :: int posix) ''x'' (Some [7]) =
     Some (False, Some [7],
           \<lparr>shm_objects = slot_of ''/x'' 112 # replicate 99 empty_slot,
            shm_fs = [''/x'' \<mapsto> \<lparr>obj_size = 112, hdr = zero_header, cells = []\<rparr>],
            sems = Map.empty, trace = []\<rparr>)"
  using consume_missing by (simp add: posix_start_def)

text \<open>
  Claim C4, amended. Consume on a name that the process has not registered and whose
  shared memory object does not exist returns \<open>false\<close> and leaves the caller's array as
  it was; afterwards an object of that name exists exactly when a slot was free and
  \<open>shm_open\<close>, which is called with \<open>O_CREAT\<close>, succeeded.
\<close>

theorem consume_missing_segment:
  fixes a :: "('d::zero) list"
  assumes nreg: "find_slot_by_name st (''/'' @ name) < 0"
    and nex: "shm_fs st (''/'' @ name) = None"
  shows "case read_array_from_shared_memory os st name (Some a) of
           None \<Rightarrow> False
         | Some (ok, result, st') \<Rightarrow>
             \<not> ok \<and> result = Some a \<and>
             (shm_fs st' (''/'' @ name) \<noteq> None) =
               (0 \<le> find_free_slot st \<and> 0 \<le> shm_open_ret os (''/'' @ name))"
proof -
  let ?nm = "''/'' @ name"
  let ?sz = "of_nat sizeof_SharedMemoryData :: size_t"
  let ?k = "find_free_slot st"
  let ?fd = "shm_open_ret os ?nm"
  let ?st1 = "shm_open_creat st ?nm"
  let ?st2 = "ftruncate ?st1 ?nm ?sz"
  let ?new = "\<lparr>name_slot = ?nm, addr_slot = Mapping ?nm (unat ?sz), size_slot = ?sz,
               fd_slot = ?fd, in_use = True\<rparr>"
  let ?st3 = "?st2\<lparr>shm_objects := (shm_objects ?st2)[nat ?k := ?new]\<rparr>"
  consider (full) "?k < 0" | (noopen) "0 \<le> ?k" "?fd < 0"
    | (notrunc) "0 \<le> ?k" "0 \<le> ?fd" "\<not> ftruncate_ok os ?fd"
    | (nomap) "0 \<le> ?k" "0 \<le> ?fd" "ftruncate_ok os ?fd" "\<not> mmap_ok os ?fd"
    | (mapped) "0 \<le> ?k" "0 \<le> ?fd" "ftruncate_ok os ?fd" "mmap_ok os ?fd"
    by linarith
  then show ?thesis
  proof cases
    case full
    then have "create_or_open os st ?nm ?sz = (- 1, st)"
      using nreg by (simp add: create_or_open_def Let_def)
    then show ?thesis
      using full nex by (simp add: read_array_from_shared_memory_def Let_def)
  next
    case noopen
    then have "create_or_open os st ?nm ?sz = (- 1, st)"
      using nreg by (simp add: create_or_open_def Let_def)
    then show ?thesis
      using noopen nex by (simp add: read_array_from_shared_memory_def Let_def)
  next
    case notrunc
    then have "create_or_open os st ?nm ?sz = (- 1, close ?st1 ?fd)"
      using nreg by (simp add: create_or_open_def Let_def)
    then show ?thesis
      using notrunc shm_open_creat_frame(4) [of st ?nm]
      by (simp add: read_array_from_shared_memory_def Let_def close_frame)
  next
    case nomap
    then have "create_or_open os st ?nm ?sz = (- 1, close ?st2 ?fd)"
      using nreg by (simp add: create_or_open_def Let_def)
    then show ?thesis
      using nomap shm_open_creat_frame(4) [of st ?nm] ftruncate_frame(4) [of ?st1 ?nm ?sz]
      by (simp add: read_array_from_shared_memory_def Let_def close_frame)
  next
    case mapped
    then have c: "create_or_open os st ?nm ?sz = (?k, ?st3)"
      using nreg by (simp add: create_or_open_def Let_def)
    have rng: "nat ?k < length (take MAX_SHM_OBJECTS (shm_objects st))"
      using find_free_slot_from_range [of "take MAX_SHM_OBJECTS (shm_objects st)" 0] mapped(1)
      by (simp add: find_free_slot_def)
    then have k: "?k < int MAX_SHM_OBJECTS" "nat ?k < length (shm_objects st)"
      using mapped(1) by (simp_all add: nat_less_iff)
    have tbl: "shm_objects ?st3 ! nat ?k = ?new"
      using k(2) by (simp add: shm_open_creat_frame ftruncate_frame)
    have p: "get_address ?st3 ?k = Mapping ?nm 112"
      using mapped(1) k(1) unfolding get_address_def tbl
      by (simp add: unat_sizeof_header)
    have fs: "shm_fs ?st3 ?nm = Some \<lparr>obj_size = 112, hdr = zero_header, cells = []\<rparr>"
      using nex
      by (simp add: shm_open_creat_def ftruncate_def resize_object_def unat_sizeof_header
          sizeof_SharedMemoryData_def)
    have hd: "load_header ?st3 (Mapping ?nm 112) = Some zero_header"
      unfolding load_header_def map_addr.case fs
      by (simp add: sizeof_SharedMemoryData_def)
    have "read_array_from_shared_memory os st name (Some a) = Some (False, Some a, ?st3)"
      unfolding read_array_from_shared_memory_def Let_def
      by (simp only: option.case c prod.case p hd)
        (simp add: mapped(1) sem_open_existing_def zero_header_def)
    then show ?thesis
      using mapped fs by simp
  qed
qed

theorem consume_missing_segment_witness:
  "find_slot_by_name (posix_start :: int posix) (''/'' @ ''x'') < 0 \<and>
   shm_fs (posix_start :: int posix) (''/'' @ ''x'') = None \<and>
   read_array_from_shared_memory os_ok (posix_start :: int posix) ''x'' (Some [7]) =
     Some (False, Some [7],
           \<lparr>shm_objects = slot_of ''/x'' 112 # replicate 99 empty_slot,
            shm_fs = [''/x'' \<mapsto> \<lparr>obj_size = 112, hdr = zero_header, cells = []\<rparr>],
            sems = Map.empty, trace = []\<rparr>) \<and>
   0 \<le> find_free_slot (posix_start :: int posix) \<and> 0 \<le> shm_open_ret os_ok (''/'' @ ''x'')"
proof -
  have a: "find_slot_by_name (posix_start :: int posix) (''/'' @ ''x'') < 0"
    by (simp add: find_slot_by_name_def posix_start_def find_slot_by_name_from_empty)
  have b: "shm_fs (posix_start :: int posix) (''/'' @ ''x'') = None"
    by (simp add: posix_start_def)
  have c: "find_free_slot (posix_start :: int posix) = 0"
    by (simp add: find_free_slot_def posix_start_def table_start)
      (simp add: MAX_SHM_OBJECTS_def empty_slot_def)
  from consume_missing_segment [OF a b, where os = os_ok and a = "[7]"] a b c consume_missing
  show ?thesis by (simp add: os_ok_simps)
qed

subsection \<open>Consume after a publish\<close>

lemma publish_start_grid2:
  "write_array_to_shared_memory os_ok (posix_start :: int posix) ''grid2'' (Some [1, 2, 3]) =
     Some (True, channel ''grid2'' [1, 2, 3] 1 (publish_events ''grid2'' 3))"
  by (simp add: posix_defs os_ok_simps create_start resize_object_def replicate_3 channel_def
      publish_events_def header_events_def slot_of_def envelope_def zero_header_def upt_rec)

lemma consume_grid2:
  "read_array_from_shared_memory os_ok (channel ''grid2'' [1, 2, 3 :: int] 1 t) ''grid2'' (Some []) =
     Some (True, Some [1, 2, 3],
           channel ''grid2'' [1, 2, 3] 1 (t @ [Wait ''/sem_grid2'', Post ''/sem_grid2'']))"
  by (simp add: read_array_from_shared_memory_def create_channel [of _ "''grid2''", simplified]
      Let_def)
    (simp add: posix_defs os_ok_simps channel_def slot_of_def envelope_def replicate_3)


text \<open>
  Against claim C1 as stated: the scenario of the specification. After
  \<open>publish("grid2", [1, 2, 3])\<close> the semaphore is at 1. The consume that follows returns
  the array and leaves the semaphore at 1, not at 0, and a second consume right after it
  returns \<open>true\<close> and the same array again instead of timing out.
\<close>

theorem consume_twice_counterexample:
  "write_array_to_shared_memory os_ok (posix_start :: int posix) ''grid2'' (Some [1, 2, 3]) =
     Some (True, channel ''grid2'' [1, 2, 3] 1 (publish_events ''grid2'' 3)) \<and>
   read_array_from_shared_memory os_ok
       (channel ''grid2'' [1, 2, 3 :: int] 1 (publish_events ''grid2'' 3)) ''grid2'' (Some []) =
     Some (True, Some [1, 2, 3],
           channel ''grid2'' [1, 2, 3] 1
             (publish_events ''grid2'' 3 @ [Wait ''/sem_grid2'', Post ''/sem_grid2''])) \<and>
   read_array_from_shared_memory os_ok
       (channel ''grid2'' [1, 2, 3 :: int] 1
         (publish_events ''grid2'' 3 @ [Wait ''/sem_grid2'', Post ''/sem_grid2'']))
       ''grid2'' (Some []) =
     Some (True, Some [1, 2, 3],
           channel ''grid2'' [1, 2, 3] 1
             ((publish_events ''grid2'' 3 @ [Wait ''/sem_grid2'', Post ''/sem_grid2'']) @
              [Wait ''/sem_grid2'', Post ''/sem_grid2'']))"
  using publish_start_grid2 consume_grid2 [of "publish_events ''grid2'' 3"]
    consume_grid2 [of "publish_events ''grid2'' 3 @ [Wait ''/sem_grid2'', Post ''/sem_grid2'']"]
  by simp

lemma sem_timedwait_True:
  assumes "sem_timedwait st s = (True, st2)"
  obtains c where "sems st s = Some c" and "0 < c"
    and "st2 = st\<lparr>sems := (sems st)(s \<mapsto> c - 1), trace := trace st @ [Wait s]\<rparr>"
  using assms by (auto simp: sem_timedwait_def split: option.splits if_splits)

lemma wait_then_post:
  assumes "sems st s = Some c" and "0 < c"
  shows "sem_post (st\<lparr>sems := (sems st)(s \<mapsto> c - 1), trace := trace st @ [Wait s]\<rparr>) s =
           st\<lparr>trace := trace st @ [Wait s, Post s]\<rparr>"
proof -
  have "(sems st)(s \<mapsto> c) = sems st"
    using assms(1) by (rule map_upd_triv)
  then show ?thesis
    using assms(2) by (simp add: sem_post_def)
qed

lemma copy_out_cong:
  "shm_fs st2 = shm_fs st \<Longrightarrow> copy_out st2 p x n i = copy_out st p x n i"
proof (induction st p x n i rule: copy_out.induct)
  case (1 st p array n i)
  have lc: "load_cell st2 p i = load_cell st p i"
    using "1.prems" by (rule load_cong)
  show ?case
  proof (cases "i < n \<and> \<not> length array \<le> i")
    case False
    then show ?thesis
      by (subst copy_out.simps, subst (2) copy_out.simps) auto
  next
    case True
    show ?thesis
    proof (cases "load_cell st p i")
      case None
      with True lc show ?thesis
        by (subst copy_out.simps, subst (2) copy_out.simps) simp
    next
      case (Some v)
      have "copy_out st2 p (array[i := v]) n (i + 1) = copy_out st p (array[i := v]) n (i + 1)"
        using "1.IH" [of v] True Some "1.prems" by simp
      with True lc Some show ?thesis
        by (subst copy_out.simps, subst (2) copy_out.simps) simp
    qed
  qed
qed

lemma copy_out_any_array:
  "copy_out st p x n i = Some r \<Longrightarrow> i \<le> n \<Longrightarrow> length x = n \<Longrightarrow> length y = n \<Longrightarrow>
   take i y = take i x \<Longrightarrow> copy_out st p y n i = Some r"
proof (induction st p x n i arbitrary: y rule: copy_out.induct)
  case (1 st p array n i)
  show ?case
  proof (cases "i < n")
    case False
    with "1.prems" have "i = n" by simp
    with "1.prems" have "y = array" and "r = array"
      by (simp_all)
    with False show ?thesis by simp
  next
    case True
    with "1.prems" have inb: "\<not> length array \<le> i" by simp
    from "1.prems"(1) True inb obtain v where lc: "load_cell st p i = Some v"
      and rest: "copy_out st p (array[i := v]) n (i + 1) = Some r"
      by (auto split: option.splits)
    have "take (i + 1) (y[i := v]) = take (i + 1) (array[i := v])"
      using "1.prems"(3,4,5) True
      by (simp add: take_Suc_conv_app_nth)
    then have "copy_out st p (y[i := v]) n (i + 1) = Some r"
      using "1.IH" [OF True inb lc rest] True "1.prems"(3,4) by simp
    with True "1.prems"(4) lc show ?thesis
      by (subst copy_out.simps) simp
  qed
qed

lemma resize_KN_length: "length (resize_KN a n) = n"
  by (simp add: resize_KN_def)

lemma prod_case_eqE:
  assumes "(case x of (a, b) \<Rightarrow> f a b) = r"
  obtains a b where "x = (a, b)" and "f a b = r"
  using assms by (cases x) simp

lemma consume_run:
  fixes st :: "('d::zero) posix"
  assumes run: "read_array_from_shared_memory os st name array = Some (True, result, st')"
  obtains a slot st1 h c a' where
    "array = Some a"
    "create_or_open os st (''/'' @ name) (of_nat sizeof_SharedMemoryData) = (slot, st1)"
    "0 \<le> slot"
    "load_header st1 (get_address st1 slot) = Some h"
    "sem_open_existing os st1 (semaphore_name h)"
    "sems st1 (semaphore_name h) = Some c" "0 < c"
    "data_type h = ''double_array''"
    "copy_out (st1\<lparr>sems := (sems st1)(semaphore_name h \<mapsto> c - 1),
                    trace := trace st1 @ [Wait (semaphore_name h)]\<rparr>)
       (get_address st1 slot) (resize_KN a (unat (elements h))) (unat (elements h)) 0 = Some a'"
    "result = Some a'"
    "st' = st1\<lparr>trace := trace st1 @ [Wait (semaphore_name h), Post (semaphore_name h)]\<rparr>"
proof -
  let ?nm = "''/'' @ name"
  let ?sz = "of_nat sizeof_SharedMemoryData :: size_t"
  obtain a where arr: "array = Some a"
    using run by (cases array) (simp_all add: read_array_from_shared_memory_def)
  obtain slot st1 where c: "create_or_open os st ?nm ?sz = (slot, st1)"
    by (cases "create_or_open os st ?nm ?sz") auto
  let ?p = "get_address st1 slot"
  let ?k = "\<lambda>shm_data.
      if \<not> sem_open_existing os st1 (semaphore_name shm_data) then Some (False, Some a, st1)
      else case sem_timedwait st1 (semaphore_name shm_data) of
             (got, st2) \<Rightarrow>
               if \<not> got then Some (False, Some a, st2)
               else if data_type shm_data \<noteq> ''double_array''
               then Some (False, Some a, sem_post st2 (semaphore_name shm_data))
               else case copy_out st2 ?p (resize_KN a (unat (elements shm_data)))
                           (unat (elements shm_data)) 0 of
                      None \<Rightarrow> None
                    | Some a' \<Rightarrow> Some (True, Some a', sem_post st2 (semaphore_name shm_data))"
  have run0: "(if slot < 0 then Some (False, Some a, st1)
               else case load_header st1 ?p of None \<Rightarrow> None | Some shm_data \<Rightarrow> ?k shm_data) =
              Some (True, result, st')"
    using run unfolding read_array_from_shared_memory_def Let_def arr
    by (simp only: option.case c prod.case)
  then have slot: "0 \<le> slot"
    by (cases "slot < 0") simp_all
  with run0 have run1: "(case load_header st1 ?p of None \<Rightarrow> None | Some shm_data \<Rightarrow> ?k shm_data) =
              Some (True, result, st')"
    by simp
  from run1 obtain h where h: "load_header st1 ?p = Some h"
    and run2: "?k h = Some (True, result, st')"
    by (rule option_case_SomeE)
  let ?s = "semaphore_name h"
  from run2 have ex: "sem_open_existing os st1 ?s"
    by (cases "sem_open_existing os st1 ?s") simp_all
  with run2 have run3: "(case sem_timedwait st1 ?s of
             (got, st2) \<Rightarrow>
               if \<not> got then Some (False, Some a, st2)
               else if data_type h \<noteq> ''double_array''
               then Some (False, Some a, sem_post st2 ?s)
               else case copy_out st2 ?p (resize_KN a (unat (elements h)))
                           (unat (elements h)) 0 of
                      None \<Rightarrow> None
                    | Some a' \<Rightarrow> Some (True, Some a', sem_post st2 ?s)) =
          Some (True, result, st')"
    by simp
  from run3 obtain got st2 where w: "sem_timedwait st1 ?s = (got, st2)"
    and run4: "(if \<not> got then Some (False, Some a, st2)
               else if data_type h \<noteq> ''double_array''
               then Some (False, Some a, sem_post st2 ?s)
               else case copy_out st2 ?p (resize_KN a (unat (elements h)))
                           (unat (elements h)) 0 of
                      None \<Rightarrow> None
                    | Some a' \<Rightarrow> Some (True, Some a', sem_post st2 ?s)) =
          Some (True, result, st')"
    by (rule prod_case_eqE)
  from run4 have got: got
    by (cases got) simp_all
  from run4 got have ty: "data_type h = ''double_array''"
    by (cases "data_type h = ''double_array''") simp_all
  from run4 got ty have run5: "(case copy_out st2 ?p (resize_KN a (unat (elements h)))
                           (unat (elements h)) 0 of
                      None \<Rightarrow> None
                    | Some a' \<Rightarrow> Some (True, Some a', sem_post st2 ?s)) =
          Some (True, result, st')"
    by simp
  from run5 obtain a' where cp: "copy_out st2 ?p (resize_KN a (unat (elements h)))
                           (unat (elements h)) 0 = Some a'"
    and "Some (True, Some a', sem_post st2 ?s) = Some (True, result, st')"
    by (rule option_case_SomeE)
  then have res: "result = Some a'" and st': "st' = sem_post st2 ?s"
    by simp_all
  from w got obtain c where cnt: "sems st1 ?s = Some c" "0 < c"
    and st2: "st2 = st1\<lparr>sems := (sems st1)(?s \<mapsto> c - 1), trace := trace st1 @ [Wait ?s]\<rparr>"
    by (auto elim: sem_timedwait_True)
  have "st' = st1\<lparr>trace := trace st1 @ [Wait ?s, Post ?s]\<rparr>"
    unfolding st' st2 using cnt by (rule wait_then_post)
  with arr c slot h ex cnt ty cp [unfolded st2] res show ?thesis
    by (rule that)
qed


lemma copy_out_loads:
  "copy_out st p x n i = Some r \<Longrightarrow> i \<le> n \<Longrightarrow> length x = n \<Longrightarrow>
   length r = n \<and> (\<forall>j<n. i \<le> j \<longrightarrow> load_cell st p j = Some (r ! j)) \<and>
   (\<forall>j<i. r ! j = x ! j)"
proof (induction st p x n i rule: copy_out.induct)
  case (1 st p array n i)
  show ?case
  proof (cases "i < n")
    case False
    with "1.prems" show ?thesis by simp
  next
    case True
    with "1.prems" have inb: "\<not> length array \<le> i" by simp
    from "1.prems"(1) True inb obtain v where lc: "load_cell st p i = Some v"
      and rest: "copy_out st p (array[i := v]) n (i + 1) = Some r"
      by (auto split: option.splits)
    have ih: "length r = n \<and> (\<forall>j<n. i + 1 \<le> j \<longrightarrow> load_cell st p j = Some (r ! j)) \<and>
        (\<forall>j<i + 1. r ! j = array[i := v] ! j)"
      using "1.IH" [OF True inb lc rest] True "1.prems"(3) by simp
    have ri: "r ! i = v"
      using ih inb by simp
    have a: "load_cell st p j = Some (r ! j)" if "j < n" "i \<le> j" for j
    proof (cases "j = i")
      case True
      with lc ri show ?thesis by simp
    next
      case False
      with that ih show ?thesis by simp
    qed
    have b: "r ! j = array ! j" if "j < i" for j
      using ih that by simp
    from ih a b show ?thesis by simp
  qed
qed


text \<open>
  Claim C1, amended. A consume that succeeds found the semaphore named in the envelope
  raised (its value was positive). The events it added to the trace are the wait on
  that semaphore, which takes the unit, and then the post, which gives it back: every
  semaphore has the value it had before the call (1 again after one pending publish,
  not 0). The array it returns is what the registered segment holds, element by
  element. A consume of the same name right after it, with no publish in between,
  succeeds again, returns the same array, adds the same wait and post, and again leaves
  the semaphores as they were.
\<close>

theorem consume_raises_signal_again:
  fixes st :: "('d::zero) posix"
  assumes run: "read_array_from_shared_memory os st name array = Some (True, result, st')"
  shows "case load_header st' (get_address st' (find_slot_by_name st' (''/'' @ name))) of
           None \<Rightarrow> False
         | Some h \<Rightarrow>
             (case sems st (semaphore_name h) of None \<Rightarrow> False | Some c \<Rightarrow> 0 < c) \<and>
             trace st' = trace st @ [Wait (semaphore_name h), Post (semaphore_name h)] \<and>
             sems st' = sems st \<and>
             map_option (map Some) result =
               Some (map (load_cell st' (get_address st' (find_slot_by_name st' (''/'' @ name))))
                      [0..<unat (elements h)]) \<and>
             (case read_array_from_shared_memory os st' name (Some b) of
                None \<Rightarrow> False
              | Some (ok, result', st'') \<Rightarrow>
                  ok \<and> result' = result \<and> sems st'' = sems st \<and>
                  trace st'' = trace st' @ [Wait (semaphore_name h), Post (semaphore_name h)])"
proof -
  let ?nm = "''/'' @ name"
  let ?sz = "of_nat sizeof_SharedMemoryData :: size_t"
  from run obtain a slot st1 h c a' where
    arr: "array = Some a"
    and c: "create_or_open os st ?nm ?sz = (slot, st1)"
    and slot: "0 \<le> slot"
    and h: "load_header st1 (get_address st1 slot) = Some h"
    and ex: "sem_open_existing os st1 (semaphore_name h)"
    and cnt: "sems st1 (semaphore_name h) = Some c"
    and pos: "0 < c"
    and ty: "data_type h = ''double_array''"
    and cp: "copy_out (st1\<lparr>sems := (sems st1)(semaphore_name h \<mapsto> c - 1),
                    trace := trace st1 @ [Wait (semaphore_name h)]\<rparr>)
       (get_address st1 slot) (resize_KN a (unat (elements h))) (unat (elements h)) 0 = Some a'"
    and res: "result = Some a'"
    and st': "st' = st1\<lparr>trace := trace st1 @ [Wait (semaphore_name h), Post (semaphore_name h)]\<rparr>"
    by (rule consume_run)
  let ?s = "semaphore_name h"
  let ?n = "unat (elements h)"
  let ?p = "get_address st1 slot"
  let ?w1 = "st1\<lparr>sems := (sems st1)(?s \<mapsto> c - 1), trace := trace st1 @ [Wait ?s]\<rparr>"
  let ?st2 = "st'\<lparr>sems := (sems st')(?s \<mapsto> c - 1), trace := trace st' @ [Wait ?s]\<rparr>"
  let ?st3 = "st'\<lparr>trace := trace st' @ [Wait ?s, Post ?s]\<rparr>"
  have sems1: "sems st1 = sems st" and tr1: "trace st1 = trace st"
    by (rule create_or_open_frame [OF c])+
  have same: "sems st' = sems st"
    using sems1 by (simp add: st')
  have tr: "trace st' = trace st @ [Wait ?s, Post ?s]"
    using tr1 by (simp add: st')
  have raised: "case sems st ?s of None \<Rightarrow> False | Some c \<Rightarrow> 0 < c"
    using cnt pos sems1 by simp
  have objs: "shm_objects st' = shm_objects st1" and fs: "shm_fs st' = shm_fs st1"
    by (simp_all add: st')
  have c2: "create_or_open os st' ?nm ?sz = (slot, st')"
    using c slot objs by (rule create_or_open_again)
  have p2: "get_address st' slot = ?p"
    using objs by (rule get_address_cong)
  have reg: "find_slot_by_name st' ?nm = slot"
    using create_or_open_registered [OF c slot] find_slot_by_name_cong [OF objs] by simp
  have h2: "load_header st' ?p = Some h"
    using load_cong(1) [OF fs] h by simp
  have loads: "map (load_cell st' ?p) [0..<?n] = map Some a'"
  proof (rule nth_equalityI)
    have len: "length a' = ?n"
      using copy_out_loads [OF cp] by (simp add: resize_KN_length)
    then show "length (map (load_cell st' ?p) [0..<?n]) = length (map Some a')"
      by simp
    fix j assume "j < length (map (load_cell st' ?p) [0..<?n])"
    then have j: "j < ?n" by simp
    have "load_cell ?w1 ?p j = Some (a' ! j)"
      using copy_out_loads [OF cp] j by (simp add: resize_KN_length)
    moreover have "load_cell st' ?p j = load_cell ?w1 ?p j"
      by (rule load_cong) (simp add: st')
    ultimately show "map (load_cell st' ?p) [0..<?n] ! j = map Some a' ! j"
      using j len by simp
  qed
  have cnt2: "sems st' ?s = Some c"
    using cnt by (simp add: st')
  have ex2: "sem_open_existing os st' ?s"
    using ex cnt2 by (simp add: sem_open_existing_def)
  have w2: "sem_timedwait st' ?s = (True, ?st2)"
    using cnt2 pos by (simp add: sem_timedwait_def)
  have "copy_out ?st2 ?p (resize_KN a ?n) ?n 0 = Some a'"
    using cp by (subst copy_out_cong [where st = ?w1]) (simp_all add: st')
  then have cp2: "copy_out ?st2 ?p (resize_KN b ?n) ?n 0 = Some a'"
    by (rule copy_out_any_array) (simp_all add: resize_KN_length)
  have post: "sem_post ?st2 ?s = ?st3"
    using cnt2 pos by (rule wait_then_post)
  have again: "read_array_from_shared_memory os st' name (Some b) = Some (True, Some a', ?st3)"
  proof -
    have nslot: "\<not> slot < 0" using slot by simp
    show ?thesis
      unfolding read_array_from_shared_memory_def Let_def
      by (simp only: option.case c2 prod.case p2 h2 nslot ex2 w2 ty cp2 post
          if_False if_True simp_thms)
  qed
  show ?thesis
    unfolding reg p2 h2 option.case again prod.case
    using raised tr same res loads by simp
qed


lemma channel_grid2_header:
  "load_header (channel ''grid2'' [1, 2, 3 :: int] c t)
     (get_address (channel ''grid2'' [1, 2, 3 :: int] c t)
       (find_slot_by_name (channel ''grid2'' [1, 2, 3 :: int] c t) (''/'' @ ''grid2''))) =
     Some (envelope ''grid2'' 3)"
  by (simp add: find_slot_by_name_def get_address_def load_header_def channel_def slot_of_def
      MAX_SHM_OBJECTS_def sizeof_SharedMemoryData_def envelope_def)

theorem consume_raises_signal_again_witness:
  "read_array_from_shared_memory os_ok
       (channel ''grid2'' [1, 2, 3 :: int] 1 (publish_events ''grid2'' 3)) ''grid2'' (Some []) =
     Some (True, Some [1, 2, 3],
           channel ''grid2'' [1, 2, 3] 1
             (publish_events ''grid2'' 3 @ [Wait ''/sem_grid2'', Post ''/sem_grid2''])) \<and>
   sems (channel ''grid2'' [1, 2, 3 :: int] 1 (publish_events ''grid2'' 3)) ''/sem_grid2'' =
     Some 1 \<and>
   trace (channel ''grid2'' [1, 2, 3 :: int] 1
           (publish_events ''grid2'' 3 @ [Wait ''/sem_grid2'', Post ''/sem_grid2''])) =
     trace (channel ''grid2'' [1, 2, 3 :: int] 1 (publish_events ''grid2'' 3)) @
     [Wait ''/sem_grid2'', Post ''/sem_grid2''] \<and>
   sems (channel ''grid2'' [1, 2, 3 :: int] 1
          (publish_events ''grid2'' 3 @ [Wait ''/sem_grid2'', Post ''/sem_grid2''])) =
     sems (channel ''grid2'' [1, 2, 3 :: int] 1 (publish_events ''grid2'' 3)) \<and>
   (case read_array_from_shared_memory os_ok
           (channel ''grid2'' [1, 2, 3 :: int] 1
             (publish_events ''grid2'' 3 @ [Wait ''/sem_grid2'', Post ''/sem_grid2'']))
           ''grid2'' (Some [0]) of
      None \<Rightarrow> False
    | Some (ok, result', st'') \<Rightarrow>
        ok \<and> result' = Some [1, 2, 3] \<and>
        sems st'' = sems (channel ''grid2'' [1, 2, 3 :: int] 1 (publish_events ''grid2'' 3)) \<and>
        trace st'' =
          trace (channel ''grid2'' [1, 2, 3 :: int] 1
                  (publish_events ''grid2'' 3 @ [Wait ''/sem_grid2'', Post ''/sem_grid2''])) @
          [Wait ''/sem_grid2'', Post ''/sem_grid2''])"
proof -
  note run = consume_grid2 [of "publish_events ''grid2'' 3"]
  have hd: "semaphore_name (envelope ''grid2'' 3) = ''/sem_grid2''"
    by (simp add: envelope_def)
  have s1: "sems (channel ''grid2'' [1, 2, 3 :: int] 1 (publish_events ''grid2'' 3))
              ''/sem_grid2'' = Some 1"
    by (simp add: channel_def)
  from consume_raises_signal_again [OF run, of "[0]"]
  show ?thesis
    unfolding channel_grid2_header option.case hd
    using run s1 by simp
qed


text \<open>
  Which consumers succeed. A process that has not registered the segment yet sets its
  size to that of the header when it opens it (\<open>create_or_open\<close> calls \<open>ftruncate\<close>),
  which cuts the doubles off. Its consume of an empty array succeeds, as above; the
  copy loop of its consume of three elements loads outside the object.
\<close>

lemma create_other_process:
  "create_or_open os_ok (other_process (channel name a c t)) (''/'' @ name) sz =
     (0, \<lparr>shm_objects = slot_of (''/'' @ name) sz # replicate 99 empty_slot,
          shm_fs = [''/'' @ name \<mapsto>
                     resize_object \<lparr>obj_size = 112 + 8 * length a,
                                    hdr = envelope name (length a), cells = a\<rparr> (unat sz)],
          sems = [''/sem_'' @ name \<mapsto> c], trace = t\<rparr>)"
  apply (simp add: create_or_open_def find_slot_by_name_def find_free_slot_def other_process_def
      find_slot_by_name_from_empty Let_def)
  apply (simp add: table_start)
  apply (simp add: empty_slot_def os_ok_def shm_open_creat_def ftruncate_def slot_of_def
      channel_def)
  done

lemma consume_other_process_empty:
  "read_array_from_shared_memory os_ok (other_process (channel ''e'' ([] :: int list) 1 t)) ''e''
     (Some [9]) =
     Some (True, Some [], channel ''e'' [] 1 (t @ [Wait ''/sem_e'', Post ''/sem_e'']))"
  by (simp add: read_array_from_shared_memory_def create_other_process [of "''e''", simplified]
      Let_def sizeof_SharedMemoryData_def)
    (simp add: posix_defs os_ok_simps resize_object_def channel_def slot_of_def envelope_def)

lemma consume_other_process_truncates:
  "read_array_from_shared_memory os_ok
     (other_process (channel ''grid2'' [1, 2, 3 :: int] 1 t)) ''grid2'' (Some []) = None"
  by (simp add: read_array_from_shared_memory_def
      create_other_process [of "''grid2''", simplified] Let_def sizeof_SharedMemoryData_def)
    (simp add: posix_defs os_ok_simps resize_object_def channel_def slot_of_def envelope_def
      replicate_3)


end
